theory Spec2Isabelle
  imports Complex_Main "HOL-Library.AList" "HOL-Library.Multiset"
begin

section \<open>Decimal arithmetic\<close>

text \<open>
  Money values are \<^verbatim>\<open>decimal.Decimal\<close> (github.com/shopspring/decimal): an
  arbitrary-precision integer coefficient with a power-of-ten exponent. \<^verbatim>\<open>Add\<close>,
  \<^verbatim>\<open>Sub\<close>, \<^verbatim>\<open>Mul\<close>, \<^verbatim>\<open>Abs\<close>, \<^verbatim>\<open>Min\<close> and the comparisons
  (\<^verbatim>\<open>Equal\<close>, \<^verbatim>\<open>LessThan\<close>, \<^verbatim>\<open>GreaterThan\<close>, \<^verbatim>\<open>LessThanOrEqual\<close>, all through
  \<^verbatim>\<open>Cmp\<close>) are exact on the number denoted, so a decimal is modelled by the rational
  number it denotes. Only \<^verbatim>\<open>Div\<close> rounds: it is \<^verbatim>\<open>DivRound\<close> at
  \<^verbatim>\<open>DivisionPrecision = 16\<close> fractional digits, half away from zero.
  The zero value of the Go type denotes 0.
\<close>

type_synonym decimal = rat

definition DivisionPrecision :: nat where
  "DivisionPrecision = 16"

definition round_half_away :: "rat \<Rightarrow> int" where
  "round_half_away x = (if x < 0 then - \<lfloor>- x + 1 / 2\<rfloor> else \<lfloor>x + 1 / 2\<rfloor>)"

definition dec_Div :: "decimal \<Rightarrow> decimal \<Rightarrow> decimal" where
  \<comment> \<open>\<^verbatim>\<open>d.Div(d2)\<close>; Go panics for \<open>d2 = 0\<close>, the only divisor in this program is 100\<close>
  "dec_Div d d2 =
     of_int (round_half_away (d / d2 * 10 ^ DivisionPrecision)) / 10 ^ DivisionPrecision"

section \<open>Domain model\<close>

text \<open>
  \<^verbatim>\<open>uuid.UUID\<close> is a 16-byte value of which the program only uses equality; it is
  modelled by the natural number the bytes encode. \<^verbatim>\<open>time.Time\<close> is a point on the
  time line, modelled by an integer. The Go string types \<^verbatim>\<open>BucketType\<close>,
  \<^verbatim>\<open>EntryType\<close>, \<^verbatim>\<open>Layer\<close> and \<^verbatim>\<open>SplitRuleItemType\<close> stay strings, so that a
  value outside the declared constants exists in the model as it does in Go.
  Record fields carry a prefix for their struct (\<open>b_\<close> Bucket, \<open>e_\<close> TransactionEntry,
  \<open>t_\<close> Transaction, \<open>i_\<close> SplitRuleItem, \<open>r_\<close> SplitRule, \<open>mv_\<close> MarketValueHistory,
  \<open>k_\<close> TransferTask), since several structs share field names.
\<close>

type_synonym uuid = nat
type_synonym time = int

type_synonym BucketType = string
type_synonym EntryType = string
type_synonym Layer = string
type_synonym SplitRuleItemType = string

abbreviation BucketTypePhysical :: BucketType where "BucketTypePhysical \<equiv> ''PHYSICAL''"
abbreviation BucketTypeVirtual :: BucketType where "BucketTypeVirtual \<equiv> ''VIRTUAL''"
abbreviation BucketTypeIncome :: BucketType where "BucketTypeIncome \<equiv> ''INCOME''"
abbreviation BucketTypeExpense :: BucketType where "BucketTypeExpense \<equiv> ''EXPENSE''"
abbreviation BucketTypeEquity :: BucketType where "BucketTypeEquity \<equiv> ''EQUITY''"
abbreviation BucketTypeSystem :: BucketType where "BucketTypeSystem \<equiv> ''SYSTEM''"

abbreviation EntryTypeDebit :: EntryType where "EntryTypeDebit \<equiv> ''DEBIT''"
abbreviation EntryTypeCredit :: EntryType where "EntryTypeCredit \<equiv> ''CREDIT''"

abbreviation LayerPhysical :: Layer where "LayerPhysical \<equiv> ''PHYSICAL''"
abbreviation LayerVirtual :: Layer where "LayerVirtual \<equiv> ''VIRTUAL''"

abbreviation SplitRuleItemTypeFixed :: SplitRuleItemType where
  "SplitRuleItemTypeFixed \<equiv> ''FIXED''"
abbreviation SplitRuleItemTypePercent :: SplitRuleItemType where
  "SplitRuleItemTypePercent \<equiv> ''PERCENT''"
abbreviation SplitRuleItemTypeRemainder :: SplitRuleItemType where
  "SplitRuleItemTypeRemainder \<equiv> ''REMAINDER''"

record Bucket =
  b_ID :: uuid
  b_Name :: string
  b_BucketType :: BucketType
  b_ParentPhysicalBucketID :: "uuid option"
  b_CurrentBalance :: decimal

record TransactionEntry =
  e_ID :: uuid
  e_TransactionID :: uuid
  e_BucketID :: uuid
  e_Amount :: decimal
  e_Type :: EntryType
  e_Layer :: Layer

record Transaction =
  t_ID :: uuid
  t_Description :: string
  t_Date :: time
  t_IsInternalTransfer :: bool
  t_IsExternalInflow :: bool
  t_Entries :: "TransactionEntry list"

record SplitRuleItem =
  i_ID :: uuid
  i_SplitRuleID :: uuid
  i_TargetBucketID :: uuid
  i_Type :: SplitRuleItemType
  i_Value :: decimal
  i_Priority :: int

record SplitRule =
  r_ID :: uuid
  r_Name :: string
  r_SourceBucketID :: uuid
  r_Items :: "SplitRuleItem list"

record MarketValueHistory =
  mv_ID :: uuid
  mv_BucketID :: uuid
  mv_Date :: time
  mv_MarketValue :: decimal

record TransferTask =
  k_ID :: uuid
  k_RelatedTransactionID :: uuid
  k_CompletedTransactionID :: "uuid option"
  k_FromPhysicalBucketID :: uuid
  k_ToPhysicalBucketID :: uuid
  k_Amount :: decimal
  k_IsCompleted :: bool

text \<open>
  Every \<^verbatim>\<open>errors.New\<close> of the modelled functions is one constructor; the comment gives
  the Go message. Those from \<open>ErrBucketNotFound\<close> on are the failures of the storage layer
  and the errors that wrap them.
\<close>

datatype error =
    ErrTotalNotPositive         \<comment> \<open>total amount must be positive\<close>
  | ErrItemsEmpty               \<comment> \<open>items list cannot be empty\<close>
  | ErrFixedExceedsRemaining    \<comment> \<open>FIXED amount exceeds remaining balance\<close>
  | ErrNoRemainderItem          \<comment> \<open>no REMAINDER item found\<close>
  | ErrAllocationImbalance      \<comment> \<open>total allocation does not equal total amount\<close>
  | ErrNoEntries                \<comment> \<open>transaction must have at least one entry\<close>
  | ErrEntryLayer               \<comment> \<open>entry layer must be PHYSICAL or VIRTUAL\<close>
  | ErrEntryAmount              \<comment> \<open>entry amount must be positive (absolute value)\<close>
  | ErrEntryType                \<comment> \<open>entry type must be DEBIT or CREDIT\<close>
  | ErrLayerImbalance Layer     \<comment> \<open>sum of debits must equal sum of credits for ... layer\<close>
  | ErrExpenseAmount            \<comment> \<open>expense amount must be positive\<close>
  | ErrNotVirtualBucket         \<comment> \<open>virtual bucket ID must reference a virtual bucket\<close>
  | ErrNotExpenseBucket         \<comment> \<open>category bucket ID must reference an expense bucket\<close>
  | ErrOverrideNotPhysical      \<comment> \<open>physical override bucket must be a physical bucket\<close>
  | ErrVirtualWithoutParent     \<comment> \<open>virtual bucket must have a parent physical bucket (ID)\<close>
  | ErrInflowAmount             \<comment> \<open>inflow amount must be positive\<close>
  | ErrSourceNotIncome          \<comment> \<open>source bucket must be an income bucket\<close>
  | ErrInternalNotImplemented   \<comment> \<open>internal transfer inflow not yet implemented\<close>
  | ErrRuleWithoutItems         \<comment> \<open>split rule must have at least one item\<close>
  | ErrTargetNotVirtual         \<comment> \<open>(all) split rule target buckets must be virtual buckets\<close>
  | ErrTargetOtherParent        \<comment> \<open>all split rule target buckets must belong to the same parent physical bucket\<close>
  | ErrMarketValueAmount        \<comment> \<open>market value must be positive\<close>
  | ErrBucketNotFound           \<comment> \<open>bucket not found\<close>
  | ErrSplitRuleNotFound        \<comment> \<open>split rule not found\<close>
  | ErrNoMarketValue            \<comment> \<open>no market value history found for bucket\<close>
  | ErrInsertEntry              \<comment> \<open>failed to insert transaction entry\<close>
  | ErrInsertMarketValue        \<comment> \<open>failed to insert market value history entry\<close>
  | ErrSplitRuleNoItems         \<comment> \<open>split rule ... has no items\<close>
  | ErrListPhysical error       \<comment> \<open>failed to list physical buckets: ...\<close>
  | ErrListEquity error         \<comment> \<open>failed to list equity buckets: ...\<close>

section \<open>Allocation engine\<close>

text \<open>
  The Go map \<^verbatim>\<open>map[uuid.UUID]decimal.Decimal\<close> is an association list with distinct
  keys: \<^verbatim>\<open>m[k] = v\<close> is \<open>AList.update k v\<close>, which overwrites the value of a key
  already present. The program only sums the values of this map (an exact, commutative
  sum) or hands it on, so the order in which Go ranges over it does not change a sum.
\<close>

type_synonym allocation = "(uuid \<times> decimal) list"

definition sum_amounts :: "allocation \<Rightarrow> decimal" where
  \<comment> \<open>\<^verbatim>\<open>for _, amount := range allocation { acc = acc.Add(amount) }\<close> from \<^verbatim>\<open>decimal.Zero\<close>\<close>
  "sum_amounts allocation = fold (\<lambda>(_, amount) acc. acc + amount) allocation 0"

fun deduct_fixed ::
  "SplitRuleItem list \<Rightarrow> allocation \<Rightarrow> decimal \<Rightarrow> error + (allocation \<times> decimal)" where
  "deduct_fixed [] allocation remaining = Inr (allocation, remaining)"
| "deduct_fixed (item # rest) allocation remaining =
     (if i_Type item = SplitRuleItemTypeFixed then
        (if i_Value item > remaining then Inl ErrFixedExceedsRemaining
         else deduct_fixed rest
                (AList.update (i_TargetBucketID item) (i_Value item) allocation)
                (remaining - i_Value item))
      else deduct_fixed rest allocation remaining)"

fun assign_percent ::
  "SplitRuleItem list \<Rightarrow> decimal \<Rightarrow> allocation \<Rightarrow> decimal \<Rightarrow> allocation \<times> decimal" where
  "assign_percent [] remaining allocation percentTotal = (allocation, percentTotal)"
| "assign_percent (item # rest) remaining allocation percentTotal =
     (if i_Type item = SplitRuleItemTypePercent then
        (let percentAmount = dec_Div (remaining * i_Value item) 100
         in assign_percent rest remaining
              (AList.update (i_TargetBucketID item) percentAmount allocation)
              (percentTotal + percentAmount))
      else assign_percent rest remaining allocation percentTotal)"

fun findRemainderItem :: "SplitRuleItem list \<Rightarrow> SplitRuleItem option" where
  "findRemainderItem [] = None"
| "findRemainderItem (item # rest) =
     (if i_Type item = SplitRuleItemTypeRemainder then Some item else findRemainderItem rest)"

text \<open>
  \<^verbatim>\<open>sort.Slice\<close> orders the copy by \<^verbatim>\<open>Priority\<close>; Go does not promise the order
  of items of equal priority. The sort is therefore a parameter \<open>srt\<close> of the model, and
  \<open>sort_Slice_ok\<close> is what any run of \<^verbatim>\<open>sort.Slice\<close> guarantees: a permutation of
  the input in ascending priority. \<open>sort_Slice_stable\<close> is the insertion sort Go runs on
  short slices.
\<close>

definition sort_Slice_ok :: "(SplitRuleItem list \<Rightarrow> SplitRuleItem list) \<Rightarrow> bool" where
  "sort_Slice_ok srt \<longleftrightarrow> (\<forall>xs. mset (srt xs) = mset xs \<and> sorted (map i_Priority (srt xs)))"

definition sort_Slice_stable :: "SplitRuleItem list \<Rightarrow> SplitRuleItem list" where
  "sort_Slice_stable items = sort_key i_Priority items"

definition CalculateAllocation ::
  "(SplitRuleItem list \<Rightarrow> SplitRuleItem list) \<Rightarrow> decimal \<Rightarrow> SplitRuleItem list
     \<Rightarrow> error + allocation" where
  "CalculateAllocation srt totalAmount items =
     (if totalAmount \<le> 0 then Inl ErrTotalNotPositive
      else if length items = 0 then Inl ErrItemsEmpty
      else
        let sortedItems = srt items in
        case deduct_fixed sortedItems [] totalAmount of
          Inl err \<Rightarrow> Inl err
        | Inr (allocation1, remaining) \<Rightarrow>
            let (allocation2, percentTotal) = assign_percent sortedItems remaining allocation1 0 in
            (case findRemainderItem sortedItems of
               None \<Rightarrow> Inl ErrNoRemainderItem
             | Some remainderItem \<Rightarrow>
                 let allocatedSoFar = sum_amounts allocation2;
                     remainderAmount = totalAmount - allocatedSoFar;
                     allocation3 =
                       AList.update (i_TargetBucketID remainderItem) remainderAmount allocation2;
                     totalAllocated = sum_amounts allocation3
                 in if totalAllocated \<noteq> totalAmount then Inl ErrAllocationImbalance
                    else Inr allocation3))"

text \<open>
  Vocabulary for the statements below: the items of one kind in the order of a list, the
  amount of a PERCENT item against a base, and the FIXED pass running out of money at
  some item (its value exceeds the total less the values of the FIXED items before it).
  \<open>assign_all\<close> collects the map assignments of one pass.
\<close>

definition fixed_items :: "SplitRuleItem list \<Rightarrow> SplitRuleItem list" where
  "fixed_items items = filter (\<lambda>i. i_Type i = SplitRuleItemTypeFixed) items"

definition percent_items :: "SplitRuleItem list \<Rightarrow> SplitRuleItem list" where
  "percent_items items = filter (\<lambda>i. i_Type i = SplitRuleItemTypePercent) items"

definition remainder_items :: "SplitRuleItem list \<Rightarrow> SplitRuleItem list" where
  "remainder_items items = filter (\<lambda>i. i_Type i = SplitRuleItemTypeRemainder) items"

definition percent_amount :: "decimal \<Rightarrow> SplitRuleItem \<Rightarrow> decimal" where
  "percent_amount base item = dec_Div (base * i_Value item) 100"

definition fixed_exceeds :: "decimal \<Rightarrow> SplitRuleItem list \<Rightarrow> bool" where
  "fixed_exceeds totalAmount fs \<longleftrightarrow>
     (\<exists>k < length fs. i_Value (fs ! k) > totalAmount - sum_list (map i_Value (take k fs)))"

definition assign_all ::
  "(SplitRuleItem \<Rightarrow> decimal) \<Rightarrow> SplitRuleItem list \<Rightarrow> allocation \<Rightarrow> allocation" where
  "assign_all g xs a = fold (\<lambda>x. AList.update (i_TargetBucketID x) (g x)) xs a"

definition mk_item :: "uuid \<Rightarrow> SplitRuleItemType \<Rightarrow> decimal \<Rightarrow> int \<Rightarrow> SplitRuleItem" where
  \<comment> \<open>a rule item for the examples; the two identifiers play no part in the allocation\<close>
  "mk_item target ty v prio =
     \<lparr>i_ID = 0, i_SplitRuleID = 0, i_TargetBucketID = target, i_Type = ty,
      i_Value = v, i_Priority = prio\<rparr>"

text \<open>
  The rules of the examples: the Church/Football rule of the allocator's tests, and a
  rule whose two PERCENT items of 80 together take more than there is.
\<close>

definition church_football :: "SplitRuleItem list" where
  "church_football =
     [mk_item 1 SplitRuleItemTypeFixed 50 1, mk_item 2 SplitRuleItemTypePercent 10 2,
      mk_item 3 SplitRuleItemTypeRemainder 0 3]"

definition two_percent_80 :: "SplitRuleItem list" where
  "two_percent_80 =
     [mk_item 1 SplitRuleItemTypePercent 80 1, mk_item 2 SplitRuleItemTypePercent 80 2,
      mk_item 3 SplitRuleItemTypeRemainder 0 3]"

section \<open>Transaction self-validation\<close>

text \<open>
  \<^verbatim>\<open>Transaction.Validate\<close> returns an \<^verbatim>\<open>error\<close>, \<^verbatim>\<open>nil\<close> being \<open>None\<close>. Its loop
  appends each entry to the slice of its layer and then tests the amount and the type,
  returning at the first entry that fails; \<^verbatim>\<open>validateLayerBalance\<close> counts every
  entry that is not a DEBIT as a credit.
\<close>

fun separate_entries ::
  "TransactionEntry list \<Rightarrow> TransactionEntry list \<Rightarrow> TransactionEntry list
     \<Rightarrow> error + (TransactionEntry list \<times> TransactionEntry list)" where
  "separate_entries [] physicalEntries virtualEntries = Inr (physicalEntries, virtualEntries)"
| "separate_entries (entry # rest) physicalEntries virtualEntries =
     (case (if e_Layer entry = LayerPhysical
              then Inr (physicalEntries @ [entry], virtualEntries)
            else if e_Layer entry = LayerVirtual
              then Inr (physicalEntries, virtualEntries @ [entry])
            else Inl ErrEntryLayer) of
        Inl err \<Rightarrow> Inl err
      | Inr (physicalEntries', virtualEntries') \<Rightarrow>
          if e_Amount entry \<le> 0 then Inl ErrEntryAmount
          else if e_Type entry \<noteq> EntryTypeDebit \<and> e_Type entry \<noteq> EntryTypeCredit
            then Inl ErrEntryType
          else separate_entries rest physicalEntries' virtualEntries')"

definition layer_totals :: "TransactionEntry list \<Rightarrow> decimal \<times> decimal" where
  "layer_totals entries =
     fold (\<lambda>entry (totalDebits, totalCredits).
             if e_Type entry = EntryTypeDebit then (totalDebits + e_Amount entry, totalCredits)
             else (totalDebits, totalCredits + e_Amount entry))
          entries (0, 0)"

definition validateLayerBalance :: "TransactionEntry list \<Rightarrow> Layer \<Rightarrow> error option" where
  "validateLayerBalance entries layer =
     (if length entries = 0 then None
      else let (totalDebits, totalCredits) = layer_totals entries
           in if totalDebits \<noteq> totalCredits then Some (ErrLayerImbalance layer) else None)"

definition Transaction_Validate :: "Transaction \<Rightarrow> error option" where
  "Transaction_Validate t =
     (if length (t_Entries t) = 0 then Some ErrNoEntries
      else case separate_entries (t_Entries t) [] [] of
        Inl err \<Rightarrow> Some err
      | Inr (physicalEntries, virtualEntries) \<Rightarrow>
          (case validateLayerBalance physicalEntries LayerPhysical of
             Some err \<Rightarrow> Some err
           | None \<Rightarrow>
               (case validateLayerBalance virtualEntries LayerVirtual of
                  Some err \<Rightarrow> Some err
                | None \<Rightarrow> None)))"

text \<open>
  Vocabulary of the statements: the sum of the amounts of one direction in one layer, and
  an entry that passes the three tests of the loop.
\<close>

definition layer_sum :: "EntryType \<Rightarrow> Layer \<Rightarrow> TransactionEntry list \<Rightarrow> decimal" where
  "layer_sum ty layer entries =
     sum_list (map e_Amount (filter (\<lambda>e. e_Layer e = layer \<and> e_Type e = ty) entries))"

definition entry_ok :: "TransactionEntry \<Rightarrow> bool" where
  "entry_ok e \<longleftrightarrow>
     0 < e_Amount e \<and> (e_Type e = EntryTypeDebit \<or> e_Type e = EntryTypeCredit)
     \<and> (e_Layer e = LayerPhysical \<or> e_Layer e = LayerVirtual)"

definition mk_entry :: "uuid \<Rightarrow> decimal \<Rightarrow> EntryType \<Rightarrow> Layer \<Rightarrow> TransactionEntry" where
  \<comment> \<open>an entry for the examples; validation reads neither identifier of it\<close>
  "mk_entry bucket amount ty layer =
     \<lparr>e_ID = 0, e_TransactionID = 0, e_BucketID = bucket, e_Amount = amount,
      e_Type = ty, e_Layer = layer\<rparr>"

definition physical_only_tx :: Transaction where
  "physical_only_tx =
     \<lparr>t_ID = 0, t_Description = ''cash withdrawal'', t_Date = 0,
      t_IsInternalTransfer = False, t_IsExternalInflow = False,
      t_Entries = [mk_entry 1 100 EntryTypeDebit LayerPhysical,
                   mk_entry 2 60 EntryTypeCredit LayerPhysical,
                   mk_entry 3 40 EntryTypeCredit LayerPhysical]\<rparr>"

section \<open>Storage\<close>

text \<open>
  The tables of the schema that the modelled operations touch. A persisted transaction is
  kept with its entries. The repository functions follow the SQL of the PostgreSQL
  adapters: \<^verbatim>\<open>GetByID\<close> selects the row of an id, \<^verbatim>\<open>Create\<close> inserts the header and
  the entries in one database transaction (any failure rolls all of it back),
  \<^verbatim>\<open>Add\<close> inserts a market-value row, \<^verbatim>\<open>GetLatest\<close> selects a bucket's row of
  highest date. The foreign keys of the schema are checked on insertion. Failures the
  data does not decide (a lost connection, a colliding fresh identifier) are outside the
  model.
\<close>

record Store =
  buckets :: "Bucket list"
  market_value_history :: "MarketValueHistory list"
  split_rules :: "SplitRule list"
  transactions :: "Transaction list"

text \<open>
  What a run draws from outside the data: the order \<^verbatim>\<open>sort.Slice\<close> leaves equal
  priorities in, the order of the \<open>n\<close>-th \<^verbatim>\<open>range\<close> over a Go map (Go randomises it),
  the \<open>n\<close>-th identifier \<^verbatim>\<open>uuid.New()\<close> returns within a call, and \<^verbatim>\<open>time.Now()\<close>.
  \<open>range_ok\<close> is what every \<^verbatim>\<open>range\<close> guarantees: each pair of the map once.
\<close>

record Env =
  env_sort :: "SplitRuleItem list \<Rightarrow> SplitRuleItem list"
  env_range :: "nat \<Rightarrow> (uuid \<times> decimal) list \<Rightarrow> (uuid \<times> decimal) list"
  env_uuid :: "nat \<Rightarrow> uuid"
  env_now :: time

definition range_ok :: "Env \<Rightarrow> bool" where
  "range_ok env \<longleftrightarrow> (\<forall>n xs. mset (env_range env n xs) = mset xs)"

definition BucketRepo_GetByID :: "Store \<Rightarrow> uuid \<Rightarrow> error + Bucket" where
  "BucketRepo_GetByID store bucketID =
     (case find (\<lambda>b. b_ID b = bucketID) (buckets store) of
        None \<Rightarrow> Inl ErrBucketNotFound
      | Some bucket \<Rightarrow> Inr bucket)"

definition BucketRepo_List :: "Store \<Rightarrow> BucketType \<Rightarrow> error + Bucket list" where
  \<comment> \<open>Modelled from the spec: the storage implementation of \<^verbatim>\<open>BucketRepository.List\<close> is
      not among the sources; its interface comment and the specification give it as the
      buckets of the given type, all buckets for the empty filter.\<close>
  "BucketRepo_List store typeFilter =
     Inr (if typeFilter = [] then buckets store
          else filter (\<lambda>b. b_BucketType b = typeFilter) (buckets store))"

definition SplitRuleRepo_GetBySourceBucketID :: "Env \<Rightarrow> Store \<Rightarrow> uuid \<Rightarrow> error + SplitRule" where
  "SplitRuleRepo_GetBySourceBucketID env store bucketID =
     (case find (\<lambda>r. r_SourceBucketID r = bucketID) (split_rules store) of
        None \<Rightarrow> Inl ErrSplitRuleNotFound
      | Some splitRule \<Rightarrow>
          if length (r_Items splitRule) = 0 then Inl ErrSplitRuleNoItems
          else Inr (splitRule\<lparr>r_Items := env_sort env (r_Items splitRule)\<rparr>))"

definition update_bucket_balance :: "TransactionEntry \<Rightarrow> Bucket list \<Rightarrow> Bucket list" where
  \<comment> \<open>the trigger \<^verbatim>\<open>balance_update_trigger\<close>, fired after each insert into
      \<^verbatim>\<open>transaction_entries\<close>\<close>
  "update_bucket_balance NEW rows =
     (if e_Type NEW = ''DEBIT'' then
        map (\<lambda>b. if b_ID b = e_BucketID NEW
                  then b\<lparr>b_CurrentBalance := b_CurrentBalance b + e_Amount NEW\<rparr> else b) rows
      else if e_Type NEW = ''CREDIT'' then
        map (\<lambda>b. if b_ID b = e_BucketID NEW
                  then b\<lparr>b_CurrentBalance := b_CurrentBalance b - e_Amount NEW\<rparr> else b) rows
      else rows)"

fun insert_entries ::
  "uuid list \<Rightarrow> TransactionEntry list \<Rightarrow> Bucket list \<Rightarrow> error + Bucket list" where
  "insert_entries txIDs [] rows = Inr rows"
| "insert_entries txIDs (entry # rest) rows =
     (if e_TransactionID entry \<notin> set txIDs \<or> e_BucketID entry \<notin> b_ID ` set rows
      then Inl ErrInsertEntry
      else insert_entries txIDs rest (update_bucket_balance entry rows))"

definition TransactionRepo_Create :: "Store \<Rightarrow> Transaction \<Rightarrow> error option \<times> Store" where
  "TransactionRepo_Create store tx =
     (case insert_entries (t_ID tx # map t_ID (transactions store)) (t_Entries tx)
             (buckets store) of
        Inl err \<Rightarrow> (Some err, store)
      | Inr rows \<Rightarrow>
          (None, store\<lparr>buckets := rows, transactions := transactions store @ [tx]\<rparr>))"

definition MarketValueRepo_Add :: "Store \<Rightarrow> MarketValueHistory \<Rightarrow> error option \<times> Store" where
  "MarketValueRepo_Add store entry =
     (if mv_BucketID entry \<notin> b_ID ` set (buckets store) then (Some ErrInsertMarketValue, store)
      else (None, store\<lparr>market_value_history := market_value_history store @ [entry]\<rparr>))"

fun latest_row :: "MarketValueHistory list \<Rightarrow> MarketValueHistory option" where
  \<comment> \<open>\<^verbatim>\<open>ORDER BY date DESC LIMIT 1\<close>; among rows of one date SQL may return any, the
      model returns the first of the table\<close>
  "latest_row [] = None"
| "latest_row (row # rest) =
     (case latest_row rest of
        None \<Rightarrow> Some row
      | Some other \<Rightarrow> if mv_Date row < mv_Date other then Some other else Some row)"

definition MarketValueRepo_GetLatest :: "Store \<Rightarrow> uuid \<Rightarrow> error + MarketValueHistory" where
  "MarketValueRepo_GetLatest store bucketID =
     (case latest_row (filter (\<lambda>row. mv_BucketID row = bucketID) (market_value_history store)) of
        None \<Rightarrow> Inl ErrNoMarketValue
      | Some entry \<Rightarrow> Inr entry)"

section \<open>Expense service\<close>

record LogExpenseInput =
  le_Amount :: decimal
  le_Description :: string
  le_VirtualBucketID :: uuid
  le_CategoryBucketID :: uuid
  le_PhysicalOverrideID :: "uuid option"

definition expense_source :: "Store \<Rightarrow> Bucket \<Rightarrow> uuid option \<Rightarrow> error + uuid" where
  \<comment> \<open>step 2 of \<^verbatim>\<open>LogExpense\<close>: the override when given, else the virtual bucket's parent\<close>
  "expense_source store virtualBucket physicalOverrideID =
     (case physicalOverrideID of
        Some sourcePhysicalBucketID \<Rightarrow>
          (case BucketRepo_GetByID store sourcePhysicalBucketID of
             Inl err \<Rightarrow> Inl err
           | Inr overrideBucket \<Rightarrow>
               if b_BucketType overrideBucket \<noteq> BucketTypePhysical
               then Inl ErrOverrideNotPhysical
               else Inr sourcePhysicalBucketID)
      | None \<Rightarrow>
          (case b_ParentPhysicalBucketID virtualBucket of
             None \<Rightarrow> Inl ErrVirtualWithoutParent
           | Some parent \<Rightarrow> Inr parent))"

definition expense_transaction :: "Env \<Rightarrow> LogExpenseInput \<Rightarrow> uuid \<Rightarrow> Transaction" where
  \<comment> \<open>step 3 of \<^verbatim>\<open>LogExpense\<close>\<close>
  "expense_transaction env input sourcePhysicalBucketID =
     (let txID = env_uuid env 0;
          now = env_now env;
          physicalCreditEntry =
            \<lparr>e_ID = env_uuid env 1, e_TransactionID = txID,
             e_BucketID = sourcePhysicalBucketID, e_Amount = le_Amount input,
             e_Type = EntryTypeCredit, e_Layer = LayerPhysical\<rparr>;
          physicalDebitEntry =
            \<lparr>e_ID = env_uuid env 2, e_TransactionID = txID,
             e_BucketID = le_CategoryBucketID input, e_Amount = le_Amount input,
             e_Type = EntryTypeDebit, e_Layer = LayerPhysical\<rparr>;
          virtualCreditEntry =
            \<lparr>e_ID = env_uuid env 3, e_TransactionID = txID,
             e_BucketID = le_VirtualBucketID input, e_Amount = le_Amount input,
             e_Type = EntryTypeCredit, e_Layer = LayerVirtual\<rparr>;
          virtualDebitEntry =
            \<lparr>e_ID = env_uuid env 4, e_TransactionID = txID,
             e_BucketID = le_CategoryBucketID input, e_Amount = le_Amount input,
             e_Type = EntryTypeDebit, e_Layer = LayerVirtual\<rparr>
      in \<lparr>t_ID = txID, t_Description = le_Description input, t_Date = now,
          t_IsInternalTransfer = False, t_IsExternalInflow = False,
          t_Entries = [physicalCreditEntry, physicalDebitEntry,
                       virtualCreditEntry, virtualDebitEntry]\<rparr>)"

definition validate_and_create :: "Store \<Rightarrow> Transaction \<Rightarrow> (error + Transaction) \<times> Store" where
  \<comment> \<open>the common tail of the posting services: \<^verbatim>\<open>tx.Validate()\<close>, then
      \<^verbatim>\<open>TransactionRepo.Create\<close>\<close>
  "validate_and_create store tx =
     (case Transaction_Validate tx of
        Some err \<Rightarrow> (Inl err, store)
      | None \<Rightarrow>
          (case TransactionRepo_Create store tx of
             (Some err, store') \<Rightarrow> (Inl err, store')
           | (None, store') \<Rightarrow> (Inr tx, store')))"

definition LogExpense :: "Env \<Rightarrow> Store \<Rightarrow> LogExpenseInput \<Rightarrow> (error + Transaction) \<times> Store" where
  "LogExpense env store input =
     (if le_Amount input \<le> 0 then (Inl ErrExpenseAmount, store)
      else case BucketRepo_GetByID store (le_VirtualBucketID input) of
        Inl err \<Rightarrow> (Inl err, store)
      | Inr virtualBucket \<Rightarrow>
          if b_BucketType virtualBucket \<noteq> BucketTypeVirtual then (Inl ErrNotVirtualBucket, store)
          else case BucketRepo_GetByID store (le_CategoryBucketID input) of
            Inl err \<Rightarrow> (Inl err, store)
          | Inr categoryBucket \<Rightarrow>
              if b_BucketType categoryBucket \<noteq> BucketTypeExpense
              then (Inl ErrNotExpenseBucket, store)
              else case expense_source store virtualBucket (le_PhysicalOverrideID input) of
                Inl err \<Rightarrow> (Inl err, store)
              | Inr sourcePhysicalBucketID \<Rightarrow>
                  validate_and_create store
                    (expense_transaction env input sourcePhysicalBucketID))"

section \<open>Inflow service\<close>

record RecordInflowInput =
  ri_Amount :: decimal
  ri_Description :: string
  ri_SourceBucketID :: uuid
  ri_IsExternal :: bool

fun check_targets :: "Store \<Rightarrow> uuid \<Rightarrow> (uuid \<times> decimal) list \<Rightarrow> error option" where
  \<comment> \<open>\<^verbatim>\<open>for bucketID := range allocation\<close>: every target is a VIRTUAL bucket of the same parent\<close>
  "check_targets store parentPhysicalBucketID [] = None"
| "check_targets store parentPhysicalBucketID ((bucketID, _) # rest) =
     (case BucketRepo_GetByID store bucketID of
        Inl err \<Rightarrow> Some err
      | Inr targetBucket \<Rightarrow>
          if b_BucketType targetBucket \<noteq> BucketTypeVirtual then Some ErrTargetNotVirtual
          else case b_ParentPhysicalBucketID targetBucket of
            None \<Rightarrow> Some ErrVirtualWithoutParent
          | Some parent \<Rightarrow>
              if parent \<noteq> parentPhysicalBucketID then Some ErrTargetOtherParent
              else check_targets store parentPhysicalBucketID rest)"

definition inflow_transaction ::
  "Env \<Rightarrow> RecordInflowInput \<Rightarrow> uuid \<Rightarrow> (uuid \<times> decimal) list \<Rightarrow> Transaction" where
  \<comment> \<open>the transaction \<^verbatim>\<open>recordExternalInflow\<close> builds; \<open>ranged\<close> is the allocation in
      the order of the second \<^verbatim>\<open>range\<close>\<close>
  "inflow_transaction env input parentPhysicalBucketID ranged =
     (let txID = env_uuid env 0;
          now = env_now env;
          physicalDebitEntry =
            \<lparr>e_ID = env_uuid env 1, e_TransactionID = txID,
             e_BucketID = parentPhysicalBucketID, e_Amount = ri_Amount input,
             e_Type = EntryTypeDebit, e_Layer = LayerPhysical\<rparr>;
          physicalCreditEntry =
            \<lparr>e_ID = env_uuid env 2, e_TransactionID = txID,
             e_BucketID = ri_SourceBucketID input, e_Amount = ri_Amount input,
             e_Type = EntryTypeCredit, e_Layer = LayerPhysical\<rparr>;
          virtualDebitEntries =
            map (\<lambda>(n, (targetBucketID, allocatedAmount)).
                   \<lparr>e_ID = env_uuid env (3 + n), e_TransactionID = txID,
                    e_BucketID = targetBucketID, e_Amount = allocatedAmount,
                    e_Type = EntryTypeDebit, e_Layer = LayerVirtual\<rparr>)
                (enumerate 0 ranged);
          virtualCreditEntry =
            \<lparr>e_ID = env_uuid env (3 + length ranged), e_TransactionID = txID,
             e_BucketID = ri_SourceBucketID input, e_Amount = ri_Amount input,
             e_Type = EntryTypeCredit, e_Layer = LayerVirtual\<rparr>
      in \<lparr>t_ID = txID, t_Description = ri_Description input, t_Date = now,
          t_IsInternalTransfer = False, t_IsExternalInflow = True,
          t_Entries = [physicalDebitEntry, physicalCreditEntry] @ virtualDebitEntries
                      @ [virtualCreditEntry]\<rparr>)"

definition recordExternalInflow ::
  "Env \<Rightarrow> Store \<Rightarrow> RecordInflowInput \<Rightarrow> Bucket \<Rightarrow> (error + Transaction) \<times> Store" where
  "recordExternalInflow env store input sourceBucket =
     (case SplitRuleRepo_GetBySourceBucketID env store (ri_SourceBucketID input) of
        Inl err \<Rightarrow> (Inl err, store)
      | Inr splitRule \<Rightarrow>
          (case CalculateAllocation (env_sort env) (ri_Amount input) (r_Items splitRule) of
             Inl err \<Rightarrow> (Inl err, store)
           | Inr allocation \<Rightarrow>
               (case r_Items splitRule of
                  [] \<Rightarrow> (Inl ErrRuleWithoutItems, store)
                | firstItem # _ \<Rightarrow>
                    (case BucketRepo_GetByID store (i_TargetBucketID firstItem) of
                       Inl err \<Rightarrow> (Inl err, store)
                     | Inr firstTargetBucket \<Rightarrow>
                         if b_BucketType firstTargetBucket \<noteq> BucketTypeVirtual
                         then (Inl ErrTargetNotVirtual, store)
                         else case b_ParentPhysicalBucketID firstTargetBucket of
                           None \<Rightarrow> (Inl ErrVirtualWithoutParent, store)
                         | Some parentPhysicalBucketID \<Rightarrow>
                             (case check_targets store parentPhysicalBucketID
                                     (env_range env 0 allocation) of
                                Some err \<Rightarrow> (Inl err, store)
                              | None \<Rightarrow>
                                  validate_and_create store
                                    (inflow_transaction env input parentPhysicalBucketID
                                       (env_range env 1 allocation)))))))"

definition RecordInflow ::
  "Env \<Rightarrow> Store \<Rightarrow> RecordInflowInput \<Rightarrow> (error + Transaction) \<times> Store" where
  "RecordInflow env store input =
     (if ri_Amount input \<le> 0 then (Inl ErrInflowAmount, store)
      else case BucketRepo_GetByID store (ri_SourceBucketID input) of
        Inl err \<Rightarrow> (Inl err, store)
      | Inr sourceBucket \<Rightarrow>
          if b_BucketType sourceBucket \<noteq> BucketTypeIncome then (Inl ErrSourceNotIncome, store)
          else if ri_IsExternal input then recordExternalInflow env store input sourceBucket
          else (Inl ErrInternalNotImplemented, store))"

section \<open>Investment service\<close>

definition UpdateMarketValue ::
  "Env \<Rightarrow> Store \<Rightarrow> uuid \<Rightarrow> decimal \<Rightarrow> (error + MarketValueHistory) \<times> Store" where
  "UpdateMarketValue env store bucketID amount =
     (if amount \<le> 0 then (Inl ErrMarketValueAmount, store)
      else case BucketRepo_GetByID store bucketID of
        Inl err \<Rightarrow> (Inl err, store)
      | Inr _ \<Rightarrow>
          (let entry = \<lparr>mv_ID = env_uuid env 0, mv_BucketID = bucketID,
                        mv_Date = env_now env, mv_MarketValue = amount\<rparr>
           in case MarketValueRepo_Add store entry of
                (Some err, store') \<Rightarrow> (Inl err, store')
              | (None, store') \<Rightarrow> (Inr entry, store')))"

section \<open>Dashboard service\<close>

record NetWorthResult =
  nw_Total :: decimal
  nw_Liquidity :: decimal
  nw_Equity :: decimal

definition GetNetWorth :: "Store \<Rightarrow> error + NetWorthResult" where
  "GetNetWorth store =
     (case BucketRepo_List store BucketTypePhysical of
        Inl err \<Rightarrow> Inl (ErrListPhysical err)
      | Inr physicalBuckets \<Rightarrow>
          (let liquidity =
                 fold (\<lambda>bucket liquidity. liquidity + b_CurrentBalance bucket) physicalBuckets 0
           in case BucketRepo_List store BucketTypeEquity of
                Inl err \<Rightarrow> Inl (ErrListEquity err)
              | Inr equityBuckets \<Rightarrow>
                  (let equity =
                         fold (\<lambda>bucket equity.
                                 case MarketValueRepo_GetLatest store (b_ID bucket) of
                                   Inl err \<Rightarrow> equity
                                 | Inr marketValueEntry \<Rightarrow>
                                     equity + mv_MarketValue marketValueEntry)
                              equityBuckets 0;
                       total = liquidity + equity
                   in Inr \<lparr>nw_Total = total, nw_Liquidity = liquidity, nw_Equity = equity\<rparr>)))"

section \<open>Transfer-task generator\<close>

type_synonym flows = "(uuid \<times> decimal) list"

definition flow_of :: "flows \<Rightarrow> uuid \<Rightarrow> decimal" where
  \<comment> \<open>\<^verbatim>\<open>physicalBucketFlows[id]\<close>: reading a key the Go map lacks gives the zero decimal\<close>
  "flow_of physicalBucketFlows bucketID =
     (case map_of physicalBucketFlows bucketID of None \<Rightarrow> 0 | Some flow \<Rightarrow> flow)"

fun net_flows :: "Store \<Rightarrow> TransactionEntry list \<Rightarrow> flows \<Rightarrow> error + flows" where
  "net_flows store [] physicalBucketFlows = Inr physicalBucketFlows"
| "net_flows store (entry # rest) physicalBucketFlows =
     (case BucketRepo_GetByID store (e_BucketID entry) of
        Inl err \<Rightarrow> Inl err
      | Inr bucket \<Rightarrow>
          (case (if b_BucketType bucket = BucketTypePhysical then Inr (Some (b_ID bucket))
                 else if b_BucketType bucket = BucketTypeVirtual then
                   (case b_ParentPhysicalBucketID bucket of
                      None \<Rightarrow> Inl ErrVirtualWithoutParent
                    | Some parent \<Rightarrow> Inr (Some parent))
                 else Inr None) of
             Inl err \<Rightarrow> Inl err
           | Inr None \<Rightarrow> net_flows store rest physicalBucketFlows
           | Inr (Some physicalBucketID) \<Rightarrow>
               (let currentFlow = flow_of physicalBucketFlows physicalBucketID
                in if e_Type entry = EntryTypeDebit then
                     net_flows store rest
                       (AList.update physicalBucketID (currentFlow + e_Amount entry)
                          physicalBucketFlows)
                   else if e_Type entry = EntryTypeCredit then
                     net_flows store rest
                       (AList.update physicalBucketID (currentFlow - e_Amount entry)
                          physicalBucketFlows)
                   else net_flows store rest physicalBucketFlows)))"

fun match_receivers ::
  "Env \<Rightarrow> uuid \<Rightarrow> uuid \<Rightarrow> decimal \<Rightarrow> uuid list \<Rightarrow> flows \<Rightarrow> TransferTask list
     \<Rightarrow> flows \<times> TransferTask list" where
  \<comment> \<open>the inner loop over \<^verbatim>\<open>receivingBuckets\<close> for one sender; the \<open>n\<close>-th task
      appended takes the \<open>n\<close>-th fresh identifier\<close>
  "match_receivers env txID fromBucketID fromAmount [] physicalBucketFlows tasks =
     (physicalBucketFlows, tasks)"
| "match_receivers env txID fromBucketID fromAmount (toBucketID # rest) physicalBucketFlows tasks =
     (let toAmount = flow_of physicalBucketFlows toBucketID;
          transferAmount = min fromAmount toAmount
      in if transferAmount > 0 then
           (let task = \<lparr>k_ID = env_uuid env (length tasks), k_RelatedTransactionID = txID,
                        k_CompletedTransactionID = None,
                        k_FromPhysicalBucketID = fromBucketID,
                        k_ToPhysicalBucketID = toBucketID,
                        k_Amount = transferAmount, k_IsCompleted = False\<rparr>;
                tasks' = tasks @ [task];
                fromAmount' = fromAmount - transferAmount;
                toAmount' = toAmount - transferAmount;
                physicalBucketFlows' = AList.update toBucketID toAmount' physicalBucketFlows
            in if fromAmount' \<le> 0 then (physicalBucketFlows', tasks')
               else match_receivers env txID fromBucketID fromAmount' rest
                      physicalBucketFlows' tasks')
         else match_receivers env txID fromBucketID fromAmount rest physicalBucketFlows tasks)"

fun match_senders ::
  "Env \<Rightarrow> uuid \<Rightarrow> uuid list \<Rightarrow> uuid list \<Rightarrow> flows \<Rightarrow> TransferTask list \<Rightarrow> TransferTask list" where
  "match_senders env txID [] receivingBuckets physicalBucketFlows tasks = tasks"
| "match_senders env txID (fromBucketID # rest) receivingBuckets physicalBucketFlows tasks =
     (let fromAmount = \<bar>flow_of physicalBucketFlows fromBucketID\<bar>;
          (physicalBucketFlows', tasks') =
            match_receivers env txID fromBucketID fromAmount receivingBuckets
              physicalBucketFlows tasks
      in match_senders env txID rest receivingBuckets physicalBucketFlows' tasks')"

definition GenerateTasks :: "Env \<Rightarrow> Store \<Rightarrow> Transaction \<Rightarrow> error + TransferTask list" where
  "GenerateTasks env store tx =
     (let virtualEntries = filter (\<lambda>entry. e_Layer entry = LayerVirtual) (t_Entries tx)
      in if length virtualEntries = 0 then Inr []
         else case net_flows store virtualEntries [] of
           Inl err \<Rightarrow> Inl err
         | Inr physicalBucketFlows \<Rightarrow>
             (let ranged = env_range env 0 physicalBucketFlows;
                  receivingBuckets = map fst (filter (\<lambda>(bucketID, flow). flow > 0) ranged);
                  sendingBuckets =
                    map fst (filter (\<lambda>(bucketID, flow). \<not> flow > 0 \<and> flow < 0) ranged)
              in Inr (match_senders env (t_ID tx) sendingBuckets receivingBuckets
                        physicalBucketFlows [])))"

section \<open>Example data\<close>

definition env0 :: Env where
  \<comment> \<open>an environment for the examples: the stable sort, maps ranged in insertion order,
      identifiers 100, 101, ... and the time 7\<close>
  "env0 = \<lparr>env_sort = sort_Slice_stable, env_range = (\<lambda>n xs. xs),
           env_uuid = (\<lambda>n. 100 + n), env_now = 7\<rparr>"

definition mk_bucket :: "uuid \<Rightarrow> string \<Rightarrow> BucketType \<Rightarrow> uuid option \<Rightarrow> decimal \<Rightarrow> Bucket" where
  "mk_bucket bucketID name ty parent balance =
     \<lparr>b_ID = bucketID, b_Name = name, b_BucketType = ty,
      b_ParentPhysicalBucketID = parent, b_CurrentBalance = balance\<rparr>"

definition store_expense :: Store where
  \<comment> \<open>scenario 3 of the specification: Main Bank 1000, Unallocated 1000, Groceries 0\<close>
  "store_expense =
     \<lparr>buckets = [mk_bucket 1 ''Main Bank'' BucketTypePhysical None 1000,
                 mk_bucket 2 ''Unallocated'' BucketTypeVirtual (Some 1) 1000,
                 mk_bucket 3 ''Groceries'' BucketTypeExpense None 0],
      market_value_history = [], split_rules = [], transactions = []\<rparr>"

definition expense_50 :: LogExpenseInput where
  "expense_50 =
     \<lparr>le_Amount = 50, le_Description = ''Groceries'', le_VirtualBucketID = 2,
      le_CategoryBucketID = 3, le_PhysicalOverrideID = None\<rparr>"

definition store_wrong_card :: Store where
  \<comment> \<open>scenario 4: FreeCash is an envelope of Checking, the expense is paid with CreditCard\<close>
  "store_wrong_card =
     \<lparr>buckets = [mk_bucket 1 ''Checking'' BucketTypePhysical None 500,
                 mk_bucket 2 ''CreditCard'' BucketTypePhysical None 500,
                 mk_bucket 3 ''FreeCash'' BucketTypeVirtual (Some 1) 500,
                 mk_bucket 4 ''Groceries'' BucketTypeExpense None 0],
      market_value_history = [], split_rules = [], transactions = []\<rparr>"

definition expense_wrong_card :: LogExpenseInput where
  "expense_wrong_card =
     \<lparr>le_Amount = 75, le_Description = ''Groceries (wrong card)'', le_VirtualBucketID = 3,
      le_CategoryBucketID = 4, le_PhysicalOverrideID = Some 2\<rparr>"

section \<open>Vocabulary of the statements\<close>

text \<open>
  Vocabulary of the net-worth statements: what an EQUITY bucket contributes (the market
  value of its latest point, 0 without a point) and the buckets of one type. The stores
  of the examples: two PHYSICAL buckets, an envelope and two EQUITY buckets of which one
  has three points and the other none; and the single EQUITY bucket Tesla of scenario 5.
\<close>

definition latest_market_value :: "Store \<Rightarrow> Bucket \<Rightarrow> decimal" where
  "latest_market_value store bucket =
     (case MarketValueRepo_GetLatest store (b_ID bucket) of
        Inl err \<Rightarrow> 0
      | Inr marketValueEntry \<Rightarrow> mv_MarketValue marketValueEntry)"

definition buckets_of_type :: "Store \<Rightarrow> BucketType \<Rightarrow> Bucket list" where
  "buckets_of_type store ty = filter (\<lambda>b. b_BucketType b = ty) (buckets store)"

definition store_net_worth :: Store where
  "store_net_worth =
     \<lparr>buckets = [mk_bucket 1 ''Checking'' BucketTypePhysical None 1200,
                 mk_bucket 2 ''FreeCash'' BucketTypeVirtual (Some 1) 1200,
                 mk_bucket 3 ''Broker Cash'' BucketTypePhysical None 300,
                 mk_bucket 4 ''Tesla'' BucketTypeEquity None 500,
                 mk_bucket 5 ''Index Fund'' BucketTypeEquity None 250],
      market_value_history =
        [\<lparr>mv_ID = 10, mv_BucketID = 4, mv_Date = 1, mv_MarketValue = 600\<rparr>,
         \<lparr>mv_ID = 11, mv_BucketID = 4, mv_Date = 3, mv_MarketValue = 650\<rparr>,
         \<lparr>mv_ID = 12, mv_BucketID = 4, mv_Date = 2, mv_MarketValue = 700\<rparr>],
      split_rules = [], transactions = []\<rparr>"

definition store_tesla :: Store where
  "store_tesla =
     \<lparr>buckets = [mk_bucket 1 ''Tesla'' BucketTypeEquity None 0],
      market_value_history = [], split_rules = [], transactions = []\<rparr>"

text \<open>
  Vocabulary of the posting statements: what one entry adds to the running balance of a
  bucket under the balance-maintenance rule (DEBIT adds the amount, CREDIT takes it
  away), the running balance of a bucket in a store, and the invariant of the data model
  that a parent reference names a PHYSICAL bucket.
\<close>

definition entry_delta :: "uuid \<Rightarrow> TransactionEntry \<Rightarrow> decimal" where
  "entry_delta bucketID e =
     (if e_BucketID e = bucketID then
        (if e_Type e = EntryTypeDebit then e_Amount e
         else if e_Type e = EntryTypeCredit then - e_Amount e else 0)
      else 0)"

definition balance_of :: "Store \<Rightarrow> uuid \<Rightarrow> decimal option" where
  "balance_of store bucketID =
     (case BucketRepo_GetByID store bucketID of
        Inl err \<Rightarrow> None
      | Inr bucket \<Rightarrow> Some (b_CurrentBalance bucket))"

definition parents_physical :: "Store \<Rightarrow> bool" where
  "parents_physical store \<longleftrightarrow>
     (\<forall>b \<in> set (buckets store).
        case b_ParentPhysicalBucketID b of
          None \<Rightarrow> True
        | Some parent \<Rightarrow>
            (case BucketRepo_GetByID store parent of
               Inl err \<Rightarrow> False
             | Inr parentBucket \<Rightarrow> b_BucketType parentBucket = BucketTypePhysical))"

text \<open>
  Vocabulary of the transfer-task statements, in the words of the specification: the
  physical anchor of a bucket (a PHYSICAL bucket is its own, a VIRTUAL bucket has its
  parent, every other type has none), the signed amount of an entry (DEBIT plus, CREDIT
  minus), and the net flow of an anchor: the sum of the signed amounts of the
  VIRTUAL-layer entries that resolve to it. A transaction is resolvable in a store when
  the bucket of each VIRTUAL-layer entry is found and, if VIRTUAL, has a parent: what the
  generator needs in order not to return an error. The example moves 100 from an envelope
  of Checking to an envelope of Savings.
\<close>

definition physical_anchor :: "Store \<Rightarrow> uuid \<Rightarrow> uuid option" where
  "physical_anchor store bucketID =
     (case BucketRepo_GetByID store bucketID of
        Inl err \<Rightarrow> None
      | Inr bucket \<Rightarrow>
          if b_BucketType bucket = BucketTypePhysical then Some (b_ID bucket)
          else if b_BucketType bucket = BucketTypeVirtual then b_ParentPhysicalBucketID bucket
          else None)"

definition signed_amount :: "TransactionEntry \<Rightarrow> decimal" where
  "signed_amount e =
     (if e_Type e = EntryTypeDebit then e_Amount e
      else if e_Type e = EntryTypeCredit then - e_Amount e else 0)"

definition net_flow :: "Store \<Rightarrow> Transaction \<Rightarrow> uuid \<Rightarrow> decimal" where
  "net_flow store tx anchor =
     sum_list (map signed_amount
       (filter (\<lambda>e. e_Layer e = LayerVirtual \<and> physical_anchor store (e_BucketID e) = Some anchor)
          (t_Entries tx)))"

definition resolvable :: "Store \<Rightarrow> Transaction \<Rightarrow> bool" where
  "resolvable store tx \<longleftrightarrow>
     (\<forall>e \<in> set (t_Entries tx).
        e_Layer e = LayerVirtual \<longrightarrow>
          (case BucketRepo_GetByID store (e_BucketID e) of
             Inl err \<Rightarrow> False
           | Inr bucket \<Rightarrow>
               b_BucketType bucket = BucketTypeVirtual
                 \<longrightarrow> b_ParentPhysicalBucketID bucket \<noteq> None))"

definition store_two_banks :: Store where
  "store_two_banks =
     \<lparr>buckets = [mk_bucket 1 ''Checking'' BucketTypePhysical None 500,
                 mk_bucket 2 ''Savings'' BucketTypePhysical None 0,
                 mk_bucket 3 ''FreeCash'' BucketTypeVirtual (Some 1) 500,
                 mk_bucket 4 ''Vault'' BucketTypeVirtual (Some 2) 0],
      market_value_history = [], split_rules = [], transactions = []\<rparr>"

definition envelope_move :: Transaction where
  "envelope_move =
     \<lparr>t_ID = 50, t_Description = ''to the vault'', t_Date = 0,
      t_IsInternalTransfer = True, t_IsExternalInflow = False,
      t_Entries = [mk_entry 3 100 EntryTypeCredit LayerVirtual,
                   mk_entry 4 100 EntryTypeDebit LayerVirtual]\<rparr>"

text \<open>
  An entry without its two identifiers: bucket, amount, direction, layer.
\<close>

definition entry_view :: "TransactionEntry \<Rightarrow> uuid \<times> decimal \<times> EntryType \<times> Layer" where
  "entry_view e = (e_BucketID e, e_Amount e, e_Type e, e_Layer e)"

text \<open>
  The store of the inflow example: the income bucket Employer with a rule FIXED 50 to
  Coffee, PERCENT 0 to Missions, REMAINDER to Catch-All, three envelopes of Bank.
\<close>

definition store_inflow :: Store where
  "store_inflow =
     \<lparr>buckets = [mk_bucket 1 ''Bank'' BucketTypePhysical None 0,
                 mk_bucket 2 ''Coffee'' BucketTypeVirtual (Some 1) 0,
                 mk_bucket 3 ''Missions'' BucketTypeVirtual (Some 1) 0,
                 mk_bucket 4 ''Catch-All'' BucketTypeVirtual (Some 1) 0,
                 mk_bucket 10 ''Employer'' BucketTypeIncome None 0],
      market_value_history = [],
      split_rules =
        [\<lparr>r_ID = 20, r_Name = ''Salary'', r_SourceBucketID = 10,
          r_Items = [mk_item 2 SplitRuleItemTypeFixed 50 1,
                     mk_item 3 SplitRuleItemTypePercent 0 2,
                     mk_item 4 SplitRuleItemTypeRemainder 0 3]\<rparr>],
      transactions = []\<rparr>"

definition inflow_1000 :: RecordInflowInput where
  "inflow_1000 =
     \<lparr>ri_Amount = 1000, ri_Description = ''Salary'', ri_SourceBucketID = 10,
      ri_IsExternal = True\<rparr>"

section \<open>Properties of the allocation engine\<close>

lemma sum_amounts_fold: "fold (\<lambda>(_, amount) acc. acc + amount) xs a = a + sum_list (map snd xs)"
  by (induction xs arbitrary: a) (auto simp: algebra_simps)

lemma sum_amounts_sum_list: "sum_amounts xs = sum_list (map snd xs)"
  by (simp add: sum_amounts_def sum_amounts_fold)

lemma deduct_fixed_distinct:
  "deduct_fixed items a r = Inr (a', r') \<Longrightarrow> distinct (map fst a) \<Longrightarrow> distinct (map fst a')"
  by (induction items a r rule: deduct_fixed.induct) (auto split: if_splits simp: distinct_update)

lemma assign_percent_distinct:
  "assign_percent items r a p = (a', p') \<Longrightarrow> distinct (map fst a) \<Longrightarrow> distinct (map fst a')"
  by (induction items r a p rule: assign_percent.induct)
     (auto split: if_splits simp: distinct_update Let_def)

lemma sum_map_of_distinct:
  fixes al :: allocation
  assumes d: "distinct (map fst al)"
  shows "(\<Sum>k \<in> dom (map_of al). the (map_of al k)) = sum_list (map snd al)"
proof -
  have "(\<Sum>k \<in> dom (map_of al). the (map_of al k))
        = (\<Sum>k \<in> set (map fst al). the (map_of al k))"
    by (simp add: dom_map_of_conv_image_fst)
  also have "\<dots> = sum_list (map (\<lambda>k. the (map_of al k)) (map fst al))"
    by (rule sum_list_distinct_conv_sum_set [OF d, symmetric])
  also have "\<dots> = sum_list (map snd al)"
  proof -
    have "the (map_of al (fst x)) = snd x" if "x \<in> set al" for x
    proof -
      from that have "(fst x, snd x) \<in> set al" by simp
      from map_of_is_SomeI [OF d this] show ?thesis by simp
    qed
    then have "map (\<lambda>k. the (map_of al k)) (map fst al) = map snd al" by simp
    then show ?thesis by (rule arg_cong)
  qed
  finally show ?thesis .
qed

lemma CalculateAllocation_InrD:
  assumes "CalculateAllocation srt totalAmount items = Inr allocation"
  shows "\<exists>a1 r a2 p ritem. 0 < totalAmount \<and> items \<noteq> [] \<and>
    deduct_fixed (srt items) [] totalAmount = Inr (a1, r) \<and>
    assign_percent (srt items) r a1 0 = (a2, p) \<and>
    findRemainderItem (srt items) = Some ritem \<and>
    allocation = AList.update (i_TargetBucketID ritem) (totalAmount - sum_amounts a2) a2 \<and>
    sum_amounts allocation = totalAmount"
  using assms unfolding CalculateAllocation_def Let_def
  by (auto split: if_splits sum.splits prod.splits option.splits)

lemma CalculateAllocation_InrE:
  assumes "CalculateAllocation srt totalAmount items = Inr allocation"
  obtains a1 r a2 p ritem where
    "0 < totalAmount" and "items \<noteq> []" and
    "deduct_fixed (srt items) [] totalAmount = Inr (a1, r)" and
    "assign_percent (srt items) r a1 0 = (a2, p)" and
    "findRemainderItem (srt items) = Some ritem" and
    "allocation = AList.update (i_TargetBucketID ritem) (totalAmount - sum_amounts a2) a2" and
    "sum_amounts allocation = totalAmount"
proof -
  from CalculateAllocation_InrD [OF assms] obtain a1 r a2 p ritem where
    "0 < totalAmount \<and> items \<noteq> [] \<and>
    deduct_fixed (srt items) [] totalAmount = Inr (a1, r) \<and>
    assign_percent (srt items) r a1 0 = (a2, p) \<and>
    findRemainderItem (srt items) = Some ritem \<and>
    allocation = AList.update (i_TargetBucketID ritem) (totalAmount - sum_amounts a2) a2 \<and>
    sum_amounts allocation = totalAmount"
    by (elim exE)
  then show thesis by (elim conjE) (rule that)
qed

lemma CalculateAllocation_distinct:
  assumes "CalculateAllocation srt totalAmount items = Inr allocation"
  shows "distinct (map fst allocation)"
proof -
  from assms obtain a1 r a2 p ritem where
    "0 < totalAmount" and "items \<noteq> []" and
    f: "deduct_fixed (srt items) [] totalAmount = Inr (a1, r)" and
    pc: "assign_percent (srt items) r a1 0 = (a2, p)" and
    "findRemainderItem (srt items) = Some ritem" and
    al: "allocation = AList.update (i_TargetBucketID ritem)
                        (totalAmount - sum_amounts a2) a2" and
    "sum_amounts allocation = totalAmount"
    by (rule CalculateAllocation_InrE)
  have "distinct (map fst a1)" using deduct_fixed_distinct [OF f] by simp
  then have "distinct (map fst a2)" using assign_percent_distinct [OF pc] by simp
  then show ?thesis by (simp add: al distinct_update)
qed

lemma assign_all_Nil [simp]: "assign_all g [] a = a"
  by (simp add: assign_all_def)

lemma assign_all_Cons [simp]:
  "assign_all g (x # xs) a = assign_all g xs (AList.update (i_TargetBucketID x) (g x) a)"
  by (simp add: assign_all_def)

lemma fixed_exceeds_Nil [simp]: "\<not> fixed_exceeds totalAmount []"
  by (simp add: fixed_exceeds_def)

lemma fixed_exceeds_Cons:
  "fixed_exceeds totalAmount (f # fs) \<longleftrightarrow> i_Value f > totalAmount \<or> fixed_exceeds (totalAmount - i_Value f) fs"
  by (simp add: fixed_exceeds_def Ex_less_Suc2 algebra_simps)

lemma deduct_fixed_char:
  "deduct_fixed items a remaining =
     (if fixed_exceeds remaining (fixed_items items) then Inl ErrFixedExceedsRemaining
      else Inr (assign_all i_Value (fixed_items items) a,
                remaining - sum_list (map i_Value (fixed_items items))))"
  by (induction items a remaining rule: deduct_fixed.induct)
     (auto simp: fixed_items_def fixed_exceeds_Cons algebra_simps)

lemma assign_percent_char:
  "assign_percent items remaining a p =
     (assign_all (percent_amount remaining) (percent_items items) a,
      p + sum_list (map (percent_amount remaining) (percent_items items)))"
  by (induction items remaining a p rule: assign_percent.induct)
     (auto simp: percent_items_def percent_amount_def Let_def algebra_simps)

lemma assign_all_keys:
  "fst ` set (assign_all g xs a) = fst ` set a \<union> i_TargetBucketID ` set xs"
  by (induction xs arbitrary: a) (auto simp: dom_update)

lemma assign_all_other:
  "t \<notin> i_TargetBucketID ` set xs \<Longrightarrow> map_of (assign_all g xs a) t = map_of a t"
  by (induction xs arbitrary: a) (auto simp: update_conv')

lemma assign_all_target:
  "distinct (map i_TargetBucketID xs) \<Longrightarrow> x \<in> set xs \<Longrightarrow>
   map_of (assign_all g xs a) (i_TargetBucketID x) = Some (g x)"
  by (induction xs arbitrary: a) (auto simp: update_conv' assign_all_other)

lemma sum_update_fresh:
  fixes al :: allocation
  shows "k \<notin> fst ` set al \<Longrightarrow> sum_list (map snd (AList.update k v al)) = sum_list (map snd al) + v"
  by (induction al) auto

lemma assign_all_sum:
  "distinct (map i_TargetBucketID xs) \<Longrightarrow> i_TargetBucketID ` set xs \<inter> fst ` set a = {} \<Longrightarrow>
   sum_list (map snd (assign_all g xs a)) = sum_list (map snd a) + sum_list (map g xs)"
proof (induction xs arbitrary: a)
  case Nil
  then show ?case by simp
next
  case (Cons x xs)
  have fresh: "i_TargetBucketID x \<notin> fst ` set a" using Cons.prems(2) by auto
  have "i_TargetBucketID ` set xs \<inter> fst ` set (AList.update (i_TargetBucketID x) (g x) a) = {}"
    using Cons.prems by (auto simp: dom_update)
  with Cons.IH [of "AList.update (i_TargetBucketID x) (g x) a"] Cons.prems(1)
  show ?case by (simp add: sum_update_fresh [OF fresh] algebra_simps)
qed

lemma findRemainderItem_char:
  "findRemainderItem items = (case remainder_items items of [] \<Rightarrow> None | r # _ \<Rightarrow> Some r)"
  by (induction items) (auto simp: remainder_items_def)

lemma valid_rule_facts:
  assumes ok: "sort_Slice_ok srt"
    and one: "remainder_items items = [r]"
    and dist: "distinct (map i_TargetBucketID items)"
  shows "remainder_items (srt items) = [r]"
    and "distinct (map i_TargetBucketID (fixed_items (srt items)))"
    and "distinct (map i_TargetBucketID (percent_items (srt items)))"
    and "i_TargetBucketID ` set (fixed_items (srt items))
           \<inter> i_TargetBucketID ` set (percent_items (srt items)) = {}"
    and "i_TargetBucketID r \<notin> i_TargetBucketID ` set (fixed_items (srt items))"
    and "i_TargetBucketID r \<notin> i_TargetBucketID ` set (percent_items (srt items))"
    and "items \<noteq> []"
proof -
  have ms: "mset (srt items) = mset items" using ok by (simp add: sort_Slice_ok_def)
  have "mset (remainder_items (srt items)) = mset (remainder_items items)"
    by (simp add: remainder_items_def ms)
  then have "mset (remainder_items (srt items)) = {#r#}" by (simp add: one)
  then show rs: "remainder_items (srt items) = [r]" by simp
  have "mset (map i_TargetBucketID (srt items)) = mset (map i_TargetBucketID items)"
    using ms by simp
  then have d: "distinct (map i_TargetBucketID (srt items))"
    using dist mset_eq_imp_distinct_iff by blast
  then have inj: "inj_on i_TargetBucketID (set (srt items))"
    by (simp add: distinct_map)
  show "distinct (map i_TargetBucketID (fixed_items (srt items)))"
    unfolding fixed_items_def by (rule distinct_map_filter [OF d])
  show "distinct (map i_TargetBucketID (percent_items (srt items)))"
    unfolding percent_items_def by (rule distinct_map_filter [OF d])
  have rin: "r \<in> set (srt items) \<and> i_Type r = SplitRuleItemTypeRemainder"
  proof -
    have "r \<in> set (remainder_items (srt items))" by (simp add: rs)
    then show ?thesis by (simp add: remainder_items_def)
  qed
  show "i_TargetBucketID ` set (fixed_items (srt items))
           \<inter> i_TargetBucketID ` set (percent_items (srt items)) = {}"
    using inj by (auto simp: fixed_items_def percent_items_def dest!: inj_onD)
  show "i_TargetBucketID r \<notin> i_TargetBucketID ` set (fixed_items (srt items))"
    using inj rin by (auto simp: fixed_items_def dest!: inj_onD)
  show "i_TargetBucketID r \<notin> i_TargetBucketID ` set (percent_items (srt items))"
    using inj rin by (auto simp: percent_items_def dest!: inj_onD)
  have "r \<in> set (remainder_items items)" by (simp add: one)
  then show "items \<noteq> []" by (auto simp: remainder_items_def)
qed

lemma CalculateAllocation_valid_rule:
  assumes ok: "sort_Slice_ok srt"
    and pos: "0 < totalAmount"
    and one: "remainder_items items = [r]"
    and dist: "distinct (map i_TargetBucketID items)"
  defines "F \<equiv> fixed_items (srt items)"
    and "P \<equiv> percent_items (srt items)"
  defines "base \<equiv> totalAmount - sum_list (map i_Value F)"
  shows "CalculateAllocation srt totalAmount items =
     (if fixed_exceeds totalAmount F then Inl ErrFixedExceedsRemaining
      else Inr (AList.update (i_TargetBucketID r)
                  (base - sum_list (map (percent_amount base) P))
                  (assign_all (percent_amount base) P (assign_all i_Value F []))))"
proof (cases "fixed_exceeds totalAmount F")
  case True
  then show ?thesis
    using pos valid_rule_facts(7) [OF ok one dist]
    by (simp add: CalculateAllocation_def deduct_fixed_char F_def)
next
  case False
  note vf = valid_rule_facts [OF ok one dist]
  let ?a1 = "assign_all i_Value F []"
  let ?a2 = "assign_all (percent_amount base) P ?a1"
  have k1: "fst ` set ?a1 = i_TargetBucketID ` set F" by (simp add: assign_all_keys)
  have s1: "sum_list (map snd ?a1) = sum_list (map i_Value F)"
    using assign_all_sum [of F "[]" i_Value] vf(2) by (simp add: F_def)
  have s2: "sum_list (map snd ?a2) = sum_list (map i_Value F) + sum_list (map (percent_amount base) P)"
    using assign_all_sum [of P ?a1 "percent_amount base"] vf(3) vf(4) k1 s1
    by (simp add: F_def P_def Int_commute)
  have k2: "i_TargetBucketID r \<notin> fst ` set ?a2"
    using vf(5) vf(6) by (simp add: assign_all_keys F_def P_def)
  have s3: "sum_amounts (AList.update (i_TargetBucketID r) (totalAmount - sum_amounts ?a2) ?a2) = totalAmount"
    by (simp add: sum_amounts_sum_list sum_update_fresh [OF k2])
  have fr: "findRemainderItem (srt items) = Some r"
    by (simp add: findRemainderItem_char vf(1))
  have rm: "totalAmount - sum_amounts ?a2 = base - sum_list (map (percent_amount base) P)"
    unfolding sum_amounts_sum_list s2 by (simp add: base_def)
  have df: "deduct_fixed (srt items) [] totalAmount = Inr (?a1, base)"
    using False by (simp add: deduct_fixed_char F_def base_def)
  have ap: "assign_percent (srt items) base ?a1 0
            = (?a2, sum_list (map (percent_amount base) P))"
    by (simp add: assign_percent_char P_def)
  show ?thesis
    using False pos vf(7) fr s3
    by (simp add: CalculateAllocation_def df ap rm)
qed

lemma one_remainder_facts:
  assumes ok: "sort_Slice_ok srt" and one: "remainder_items items = [r]"
  shows "remainder_items (srt items) = [r]" and "items \<noteq> []"
proof -
  have ms: "mset (srt items) = mset items" using ok by (simp add: sort_Slice_ok_def)
  have "mset (remainder_items (srt items)) = mset (remainder_items items)"
    by (simp add: remainder_items_def ms)
  then have "mset (remainder_items (srt items)) = {#r#}" by (simp add: one)
  then show "remainder_items (srt items) = [r]" by simp
  have "r \<in> set (remainder_items items)" by (simp add: one)
  then show "items \<noteq> []" by (auto simp: remainder_items_def)
qed

lemma CalculateAllocation_one_remainder:
  assumes ok: "sort_Slice_ok srt"
    and pos: "0 < totalAmount"
    and one: "remainder_items items = [r]"
  defines "F \<equiv> fixed_items (srt items)"
    and "P \<equiv> percent_items (srt items)"
  defines "base \<equiv> totalAmount - sum_list (map i_Value F)"
  defines "assigned \<equiv> assign_all (percent_amount base) P (assign_all i_Value F [])"
  defines "allocation \<equiv>
    AList.update (i_TargetBucketID r) (totalAmount - sum_list (map snd assigned)) assigned"
  shows "CalculateAllocation srt totalAmount items =
     (if fixed_exceeds totalAmount F then Inl ErrFixedExceedsRemaining
      else if sum_list (map snd allocation) = totalAmount then Inr allocation
      else Inl ErrAllocationImbalance)"
proof -
  note of = one_remainder_facts [OF ok one]
  have fr: "findRemainderItem (srt items) = Some r"
    by (simp add: findRemainderItem_char of(1))
  show ?thesis
  proof (cases "fixed_exceeds totalAmount F")
    case True
    then show ?thesis
      using pos of(2) by (simp add: CalculateAllocation_def deduct_fixed_char F_def)
  next
    case False
    have df: "deduct_fixed (srt items) [] totalAmount = Inr (assign_all i_Value F [], base)"
      using False by (simp add: deduct_fixed_char F_def base_def)
    have ap: "assign_percent (srt items) base (assign_all i_Value F []) 0
              = (assigned, sum_list (map (percent_amount base) P))"
      by (simp add: assign_percent_char P_def assigned_def)
    show ?thesis
      using False pos of(2) fr
      by (simp add: CalculateAllocation_def df ap sum_amounts_sum_list allocation_def)
  qed
qed

lemma round_half_away_of_int: "round_half_away (of_int n) = n"
proof -
  have "\<lfloor>(of_int n :: rat) + 1 / 2\<rfloor> = n" by linarith
  moreover have "\<lfloor>- (of_int n :: rat) + 1 / 2\<rfloor> = - n" by linarith
  ultimately show ?thesis by (simp add: round_half_away_def)
qed

lemma dec_Div_100_exact:
  assumes "x * 10 ^ 14 \<in> \<int>"
  shows "dec_Div x 100 = x / 100"
proof -
  from assms obtain n where n: "x * 10 ^ 14 = of_int n" by (auto elim: Ints_cases)
  have "x / 100 * 10 ^ DivisionPrecision = x * 10 ^ 14"
    by (simp add: DivisionPrecision_def)
  then have e: "x / 100 * 10 ^ DivisionPrecision = of_int n" by (simp only: n)
  have "dec_Div x 100 = of_int (round_half_away (of_int n)) / 10 ^ DivisionPrecision"
    by (simp only: dec_Div_def e)
  also have "\<dots> = x * 10 ^ 14 / 10 ^ 16"
    by (simp only: round_half_away_of_int n DivisionPrecision_def)
  also have "\<dots> = x / 100" by simp
  finally show ?thesis .
qed

lemma sort_Slice_stable_ok: "sort_Slice_ok sort_Slice_stable"
  by (simp add: sort_Slice_ok_def sort_Slice_stable_def)

text \<open>
  C2. Whenever \<^verbatim>\<open>CalculateAllocation\<close> returns a map, for every total, every list of
  items (duplicate targets included) and whatever order the sort left equal priorities
  in, the amounts of the returned map add up to the total exactly. The keys of the
  association list are distinct, so its list of values is the map's family of values.
\<close>

theorem CalculateAllocation_sum_total:
  assumes "CalculateAllocation srt totalAmount items = Inr allocation"
  shows "sum_list (map snd allocation) = totalAmount \<and> distinct (map fst allocation)
         \<and> (\<Sum>k \<in> dom (map_of allocation). the (map_of allocation k)) = totalAmount"
proof -
  from assms have "sum_amounts allocation = totalAmount"
    by (rule CalculateAllocation_InrE)
  then have s: "sum_list (map snd allocation) = totalAmount"
    by (simp add: sum_amounts_sum_list)
  have d: "distinct (map fst allocation)"
    by (rule CalculateAllocation_distinct [OF assms])
  from sum_map_of_distinct [OF d] s d show ?thesis by simp
qed

text \<open>
  The rule of the example names bucket 2 twice (a PERCENT item of 0 and the REMAINDER
  item): the map holds 50 for bucket 1 and 950 for bucket 2.
\<close>

theorem CalculateAllocation_sum_total_witness:
  "CalculateAllocation sort_Slice_stable 1000
     [mk_item 1 SplitRuleItemTypeFixed 50 1, mk_item 2 SplitRuleItemTypePercent 0 2,
      mk_item 2 SplitRuleItemTypeRemainder 0 3] = Inr [(1, 50), (2, 950)]
   \<and> sum_list (map snd [(1 :: uuid, 50 :: decimal), (2, 950)]) = 1000"
proof -
  have h: "CalculateAllocation sort_Slice_stable 1000
     [mk_item 1 SplitRuleItemTypeFixed 50 1, mk_item 2 SplitRuleItemTypePercent 0 2,
      mk_item 2 SplitRuleItemTypeRemainder 0 3] = Inr [(1, 50), (2, 950)]"
    by code_simp
  from CalculateAllocation_sum_total [OF h] h show ?thesis by simp
qed

text \<open>
  C1. For a total above zero and a rule with exactly one REMAINDER item \<open>r\<close>: the FIXED
  items are taken in ascending priority, \<open>F\<close> being the FIXED items in the order the sort
  left them. If the value of some FIXED item exceeds the total less the FIXED values
  before it, the allocation fails with the FIXED overflow error. Otherwise the map is
  built by assigning to its target, in this order, the value of each FIXED item, then for
  each PERCENT item (total less all FIXED values) times its value divided by 100, each
  against that same base, and last, to the target of \<open>r\<close>, the total less the sum of the
  map so far; the result is this map if its amounts add up to the total (an assignment to
  a target replaces an earlier one, so they need not). When the targets of the rule are
  distinct, as the data model asks, the allocation succeeds, every FIXED target holds its
  value, every PERCENT target its share and the REMAINDER target the total less all FIXED
  values and all PERCENT shares. The division is the decimal library's \<open>dec_Div\<close>, which
  is the exact quotient whenever the product has at most 14 fractional digits.
\<close>

theorem CalculateAllocation_three_passes:
  assumes ok: "sort_Slice_ok srt"
    and pos: "0 < totalAmount"
    and one: "remainder_items items = [r]"
  defines "F \<equiv> fixed_items (srt items)"
    and "P \<equiv> percent_items (srt items)"
  defines "base \<equiv> totalAmount - sum_list (map i_Value F)"
  defines "assigned \<equiv>
    assign_all (\<lambda>p. dec_Div (base * i_Value p) 100) P (assign_all i_Value F [])"
  shows "sorted (map i_Priority F) \<and> mset F = mset (fixed_items items)
    \<and> ((\<exists>k < length F. i_Value (F ! k) > totalAmount - sum_list (map i_Value (take k F)))
          \<longrightarrow> CalculateAllocation srt totalAmount items = Inl ErrFixedExceedsRemaining)
    \<and> (\<not> (\<exists>k < length F. i_Value (F ! k) > totalAmount - sum_list (map i_Value (take k F)))
          \<longrightarrow> CalculateAllocation srt totalAmount items =
                (let allocation =
                       AList.update (i_TargetBucketID r)
                         (totalAmount - sum_list (map snd assigned)) assigned
                 in if sum_list (map snd allocation) = totalAmount then Inr allocation
                    else Inl ErrAllocationImbalance))
    \<and> (\<not> (\<exists>k < length F. i_Value (F ! k) > totalAmount - sum_list (map i_Value (take k F)))
        \<and> distinct (map i_TargetBucketID items)
          \<longrightarrow> (\<exists>allocation.
                 CalculateAllocation srt totalAmount items = Inr allocation
               \<and> (\<forall>f \<in> set F. map_of allocation (i_TargetBucketID f) = Some (i_Value f))
               \<and> (\<forall>p \<in> set P. map_of allocation (i_TargetBucketID p)
                                  = Some (dec_Div (base * i_Value p) 100))
               \<and> map_of allocation (i_TargetBucketID r)
                    = Some (totalAmount - sum_list (map i_Value F)
                              - (\<Sum>p \<leftarrow> P. dec_Div (base * i_Value p) 100))))
    \<and> (\<forall>p \<in> set P. base * i_Value p * 10 ^ 14 \<in> \<int>
          \<longrightarrow> dec_Div (base * i_Value p) 100 = base * i_Value p / 100)"
proof -
  have srt: "sorted (map i_Priority (srt items))" and ms: "mset (srt items) = mset items"
    using ok by (simp_all add: sort_Slice_ok_def)
  have 1: "sorted (map i_Priority F)"
    unfolding F_def fixed_items_def by (rule sorted_filter [OF srt])
  have 2: "mset F = mset (fixed_items items)"
    by (simp add: F_def fixed_items_def ms)
  have pa: "percent_amount base = (\<lambda>p. dec_Div (base * i_Value p) 100)"
    by (rule ext) (simp add: percent_amount_def)
  have pa': "percent_amount b = (\<lambda>p. dec_Div (b * i_Value p) 100)" for b
    by (rule ext) (simp add: percent_amount_def)
  have gen: "CalculateAllocation srt totalAmount items =
     (if fixed_exceeds totalAmount F then Inl ErrFixedExceedsRemaining
      else if sum_list (map snd (AList.update (i_TargetBucketID r)
                 (totalAmount - sum_list (map snd assigned)) assigned)) = totalAmount
        then Inr (AList.update (i_TargetBucketID r)
                 (totalAmount - sum_list (map snd assigned)) assigned)
      else Inl ErrAllocationImbalance)"
    unfolding F_def P_def base_def assigned_def
    by (rule CalculateAllocation_one_remainder [OF ok pos one, unfolded pa'])
  have 3: "(\<exists>k < length F. i_Value (F ! k) > totalAmount - sum_list (map i_Value (take k F)))
          \<longrightarrow> CalculateAllocation srt totalAmount items = Inl ErrFixedExceedsRemaining"
  proof
    assume "\<exists>k < length F. i_Value (F ! k) > totalAmount - sum_list (map i_Value (take k F))"
    then have "fixed_exceeds totalAmount F" by (simp add: fixed_exceeds_def)
    then show "CalculateAllocation srt totalAmount items = Inl ErrFixedExceedsRemaining"
      by (simp add: gen)
  qed
  have 4: "\<not> (\<exists>k < length F. i_Value (F ! k) > totalAmount - sum_list (map i_Value (take k F)))
          \<longrightarrow> CalculateAllocation srt totalAmount items =
                (let allocation =
                       AList.update (i_TargetBucketID r)
                         (totalAmount - sum_list (map snd assigned)) assigned
                 in if sum_list (map snd allocation) = totalAmount then Inr allocation
                    else Inl ErrAllocationImbalance)"
  proof
    assume "\<not> (\<exists>k < length F. i_Value (F ! k)
                 > totalAmount - sum_list (map i_Value (take k F)))"
    then have "\<not> fixed_exceeds totalAmount F" by (simp add: fixed_exceeds_def)
    then show "CalculateAllocation srt totalAmount items =
                (let allocation =
                       AList.update (i_TargetBucketID r)
                         (totalAmount - sum_list (map snd assigned)) assigned
                 in if sum_list (map snd allocation) = totalAmount then Inr allocation
                    else Inl ErrAllocationImbalance)"
      by (simp add: gen Let_def)
  qed
  have 5: "\<exists>allocation.
                 CalculateAllocation srt totalAmount items = Inr allocation
               \<and> (\<forall>f \<in> set F. map_of allocation (i_TargetBucketID f) = Some (i_Value f))
               \<and> (\<forall>p \<in> set P. map_of allocation (i_TargetBucketID p)
                                  = Some (dec_Div (base * i_Value p) 100))
               \<and> map_of allocation (i_TargetBucketID r)
                    = Some (totalAmount - sum_list (map i_Value F)
                              - (\<Sum>p \<leftarrow> P. dec_Div (base * i_Value p) 100))"
    if nf: "\<not> (\<exists>k < length F. i_Value (F ! k) > totalAmount - sum_list (map i_Value (take k F)))"
      and dist: "distinct (map i_TargetBucketID items)"
  proof -
    note vf = valid_rule_facts [OF ok one dist]
    note char = CalculateAllocation_valid_rule [OF ok pos one dist]
    let ?a = "AList.update (i_TargetBucketID r)
                (base - sum_list (map (percent_amount base) P))
                (assign_all (percent_amount base) P (assign_all i_Value F []))"
    have f: "map_of ?a (i_TargetBucketID f) = Some (i_Value f)" if "f \<in> set F" for f
    proof -
      have "i_TargetBucketID f \<noteq> i_TargetBucketID r"
        using that vf(5) unfolding F_def by (metis imageI)
      moreover have "i_TargetBucketID f \<notin> i_TargetBucketID ` set P"
        using that vf(4) unfolding F_def P_def by blast
      ultimately show ?thesis
        using assign_all_target [OF vf(2), of f i_Value "[]"] that
        by (simp add: update_conv' assign_all_other F_def)
    qed
    have p: "map_of ?a (i_TargetBucketID p) = Some (percent_amount base p)" if "p \<in> set P" for p
    proof -
      have "i_TargetBucketID p \<noteq> i_TargetBucketID r"
        using that vf(6) unfolding P_def by (metis imageI)
      then show ?thesis
        using assign_all_target [OF vf(3), of p] that
        by (simp add: update_conv' P_def)
    qed
    have rr: "map_of ?a (i_TargetBucketID r)
              = Some (base - sum_list (map (percent_amount base) P))"
      by (simp add: update_conv')
    show ?thesis
      using nf char f p rr
      unfolding F_def [symmetric] P_def [symmetric] base_def [symmetric] fixed_exceeds_def pa
      by (simp add: base_def)
  qed
  have ex: "dec_Div (base * i_Value p) 100 = base * i_Value p / 100"
    if "base * i_Value p * 10 ^ 14 \<in> \<int>" for p
    using that by (rule dec_Div_100_exact)
  from 1 2 3 4 5 ex show ?thesis by blast
qed

text \<open>
  Allocating 1000 under FIXED 50 (priority 1), PERCENT 10 (priority 2), REMAINDER
  (priority 3) yields 50, 95 and 855.
\<close>

theorem CalculateAllocation_three_passes_witness:
  "sort_Slice_ok sort_Slice_stable \<and> (0 :: decimal) < 1000
   \<and> remainder_items church_football = [mk_item 3 SplitRuleItemTypeRemainder 0 3]
   \<and> distinct (map i_TargetBucketID church_football)
   \<and> (\<exists>allocation. CalculateAllocation sort_Slice_stable 1000 church_football = Inr allocation
          \<and> map_of allocation 1 = Some 50 \<and> map_of allocation 2 = Some 95
          \<and> map_of allocation 3 = Some 855)"
proof -
  have h1: "sort_Slice_ok sort_Slice_stable" by (rule sort_Slice_stable_ok)
  have h2: "(0 :: decimal) < 1000" by simp
  have h3: "remainder_items church_football = [mk_item 3 SplitRuleItemTypeRemainder 0 3]"
    by (simp add: remainder_items_def church_football_def mk_item_def)
  have h4: "distinct (map i_TargetBucketID church_football)"
    by (simp add: church_football_def mk_item_def)
  have s: "sort_Slice_stable church_football = church_football"
    by (simp add: sort_Slice_stable_def church_football_def mk_item_def)
  have F: "fixed_items church_football = [mk_item 1 SplitRuleItemTypeFixed 50 1]"
    by (simp add: fixed_items_def church_football_def mk_item_def)
  have P: "percent_items church_football = [mk_item 2 SplitRuleItemTypePercent 10 2]"
    by (simp add: percent_items_def church_football_def mk_item_def)
  have d: "dec_Div 9500 100 = 95" by code_simp
  note t = CalculateAllocation_three_passes [OF h1 h2 h3, unfolded s F P]
  from t h4 have "\<exists>allocation. CalculateAllocation sort_Slice_stable 1000 church_football = Inr allocation
          \<and> map_of allocation 1 = Some 50 \<and> map_of allocation 2 = Some 95
          \<and> map_of allocation 3 = Some 855"
    by (simp add: mk_item_def d)
  with h1 h2 h3 h4 show ?thesis by simp
qed

text \<open>
  C3, as the code has it. The allocator has a single overflow failure, that of the FIXED
  pass: for every input it returns the FIXED overflow error exactly when the total is
  positive, the list is not empty and some FIXED item exceeds what is left. The amount of
  the REMAINDER item is not tested for its sign: for a rule with exactly one REMAINDER
  item and distinct targets whose FIXED pass goes through, the allocation succeeds and the
  REMAINDER target holds the total less all FIXED values and all PERCENT amounts, be that
  positive, zero or negative.
\<close>

theorem CalculateAllocation_overflow_only_fixed:
  "(CalculateAllocation srt totalAmount items = Inl ErrFixedExceedsRemaining
      \<longleftrightarrow> 0 < totalAmount \<and> items \<noteq> [] \<and> fixed_exceeds totalAmount (fixed_items (srt items)))
   \<and> (sort_Slice_ok srt \<and> 0 < totalAmount \<and> remainder_items items = [r]
        \<and> distinct (map i_TargetBucketID items)
        \<and> \<not> fixed_exceeds totalAmount (fixed_items (srt items))
      \<longrightarrow> (\<exists>allocation.
             CalculateAllocation srt totalAmount items = Inr allocation
           \<and> map_of allocation (i_TargetBucketID r)
               = Some (totalAmount - sum_list (map i_Value (fixed_items (srt items)))
                   - sum_list (map (percent_amount
                        (totalAmount - sum_list (map i_Value (fixed_items (srt items)))))
                        (percent_items (srt items))))))"
proof (intro conjI impI)
  show "CalculateAllocation srt totalAmount items = Inl ErrFixedExceedsRemaining
      \<longleftrightarrow> 0 < totalAmount \<and> items \<noteq> [] \<and> fixed_exceeds totalAmount (fixed_items (srt items))"
    by (auto simp: CalculateAllocation_def deduct_fixed_char Let_def
             split: prod.splits option.splits)
next
  assume a: "sort_Slice_ok srt \<and> 0 < totalAmount \<and> remainder_items items = [r]
        \<and> distinct (map i_TargetBucketID items)
        \<and> \<not> fixed_exceeds totalAmount (fixed_items (srt items))"
  then have ok: "sort_Slice_ok srt" and pos: "0 < totalAmount"
    and one: "remainder_items items = [r]" and dist: "distinct (map i_TargetBucketID items)"
    and nf: "\<not> fixed_exceeds totalAmount (fixed_items (srt items))"
    by simp_all
  from CalculateAllocation_valid_rule [OF ok pos one dist] nf
  show "\<exists>allocation.
             CalculateAllocation srt totalAmount items = Inr allocation
           \<and> map_of allocation (i_TargetBucketID r)
               = Some (totalAmount - sum_list (map i_Value (fixed_items (srt items)))
                   - sum_list (map (percent_amount
                        (totalAmount - sum_list (map i_Value (fixed_items (srt items)))))
                        (percent_items (srt items))))"
    by (simp add: update_conv')
qed

text \<open>
  Two PERCENT items of 80 on a total of 1000: no FIXED overflow, the allocation succeeds
  and the REMAINDER target holds -600.
\<close>

theorem CalculateAllocation_overflow_only_fixed_witness:
  "sort_Slice_ok sort_Slice_stable \<and> (0 :: decimal) < 1000
   \<and> remainder_items two_percent_80 = [mk_item 3 SplitRuleItemTypeRemainder 0 3]
   \<and> distinct (map i_TargetBucketID two_percent_80)
   \<and> \<not> fixed_exceeds 1000 (fixed_items (sort_Slice_stable two_percent_80))
   \<and> CalculateAllocation sort_Slice_stable 1000 two_percent_80 \<noteq> Inl ErrFixedExceedsRemaining
   \<and> (\<exists>allocation. CalculateAllocation sort_Slice_stable 1000 two_percent_80 = Inr allocation
          \<and> map_of allocation 3 = Some (- 600))"
proof -
  have h1: "sort_Slice_ok sort_Slice_stable" by (rule sort_Slice_stable_ok)
  have h2: "(0 :: decimal) < 1000" by simp
  have h3: "remainder_items two_percent_80 = [mk_item 3 SplitRuleItemTypeRemainder 0 3]"
    by (simp add: remainder_items_def two_percent_80_def mk_item_def)
  have h4: "distinct (map i_TargetBucketID two_percent_80)"
    by (simp add: two_percent_80_def mk_item_def)
  have s: "sort_Slice_stable two_percent_80 = two_percent_80"
    by (simp add: sort_Slice_stable_def two_percent_80_def mk_item_def)
  have F: "fixed_items two_percent_80 = []"
    by (simp add: fixed_items_def two_percent_80_def mk_item_def)
  have P: "percent_items two_percent_80 = two_percent_80 ! 0 # two_percent_80 ! 1 # []"
    by (simp add: percent_items_def two_percent_80_def mk_item_def)
  have d: "dec_Div 80000 100 = 800" by code_simp
  have nf: "\<not> fixed_exceeds 1000 (fixed_items (sort_Slice_stable two_percent_80))"
    by (simp add: s F)
  have pa: "sum_list (map (percent_amount 1000) (percent_items two_percent_80)) = 1600"
    by (simp add: percent_items_def two_percent_80_def mk_item_def percent_amount_def d)
  note t = CalculateAllocation_overflow_only_fixed
    [of sort_Slice_stable 1000 two_percent_80 "mk_item 3 SplitRuleItemTypeRemainder 0 3"]
  from t nf have 1: "CalculateAllocation sort_Slice_stable 1000 two_percent_80
                       \<noteq> Inl ErrFixedExceedsRemaining"
    by simp
  from t h1 h2 h3 h4 nf
  have "\<exists>allocation. CalculateAllocation sort_Slice_stable 1000 two_percent_80 = Inr allocation
          \<and> map_of allocation (i_TargetBucketID (mk_item 3 SplitRuleItemTypeRemainder 0 3))
               = Some (1000 - sum_list (map i_Value (fixed_items (sort_Slice_stable two_percent_80)))
                   - sum_list (map (percent_amount
                        (1000 - sum_list (map i_Value (fixed_items (sort_Slice_stable two_percent_80)))))
                        (percent_items (sort_Slice_stable two_percent_80))))"
    by blast
  then have 2: "\<exists>allocation. CalculateAllocation sort_Slice_stable 1000 two_percent_80 = Inr allocation
          \<and> map_of allocation 3 = Some (- 600)"
    by (simp add: s F pa) (simp add: mk_item_def)
  from h1 h2 h3 h4 nf 1 2 show ?thesis by simp
qed

text \<open>
  C3 as the specification states it (a negative REMAINDER amount fails the allocation, and
  no returned amount is negative) does not hold: the same rule returns 800, 800 and -600.
\<close>

theorem CalculateAllocation_negative_remainder_counterexample:
  "CalculateAllocation sort_Slice_stable 1000 two_percent_80
     = Inr [(1, 800), (2, 800), (3, - 600)]"
  unfolding two_percent_80_def by code_simp

section \<open>Properties of transaction self-validation\<close>

lemma separate_entries_ok:
  "\<forall>e \<in> set es. entry_ok e \<Longrightarrow>
   separate_entries es ph vi =
     Inr (ph @ filter (\<lambda>e. e_Layer e = LayerPhysical) es,
          vi @ filter (\<lambda>e. e_Layer e = LayerVirtual) es)"
  by (induction es arbitrary: ph vi) (auto simp: entry_ok_def)

lemma separate_entries_bad:
  "\<not> (\<forall>e \<in> set es. entry_ok e) \<Longrightarrow> \<exists>err. separate_entries es ph vi = Inl err"
  by (induction es arbitrary: ph vi) (auto simp: entry_ok_def)

lemma layer_totals_fold:
  "fold (\<lambda>entry (totalDebits, totalCredits).
             if e_Type entry = EntryTypeDebit then (totalDebits + e_Amount entry, totalCredits)
             else (totalDebits, totalCredits + e_Amount entry)) es (d, c)
   = (d + sum_list (map e_Amount (filter (\<lambda>e. e_Type e = EntryTypeDebit) es)),
      c + sum_list (map e_Amount (filter (\<lambda>e. e_Type e \<noteq> EntryTypeDebit) es)))"
  by (induction es arbitrary: d c) (auto simp: algebra_simps)

lemma layer_totals_char:
  "layer_totals es =
     (sum_list (map e_Amount (filter (\<lambda>e. e_Type e = EntryTypeDebit) es)),
      sum_list (map e_Amount (filter (\<lambda>e. e_Type e \<noteq> EntryTypeDebit) es)))"
  by (simp add: layer_totals_def layer_totals_fold)

lemma validateLayerBalance_layer:
  assumes "\<forall>e \<in> set es. entry_ok e"
  shows "validateLayerBalance (filter (\<lambda>e. e_Layer e = L) es) L = None
         \<longleftrightarrow> ((\<exists>e \<in> set es. e_Layer e = L)
               \<longrightarrow> layer_sum EntryTypeDebit L es = layer_sum EntryTypeCredit L es)"
proof -
  have "filter (\<lambda>e. e_Type e \<noteq> EntryTypeDebit) (filter (\<lambda>e. e_Layer e = L) es)
        = filter (\<lambda>e. e_Layer e = L \<and> e_Type e = EntryTypeCredit) es"
    using assms by (induction es) (auto simp: entry_ok_def)
  moreover have "filter (\<lambda>e. e_Type e = EntryTypeDebit) (filter (\<lambda>e. e_Layer e = L) es)
        = filter (\<lambda>e. e_Layer e = L \<and> e_Type e = EntryTypeDebit) es"
    by (induction es) auto
  moreover have "filter (\<lambda>e. e_Layer e = L) es = [] \<longleftrightarrow> \<not> (\<exists>e \<in> set es. e_Layer e = L)"
    by (auto simp: filter_empty_conv)
  ultimately show ?thesis
    by (auto simp: validateLayerBalance_def layer_totals_char layer_sum_def)
qed

text \<open>
  C4. \<^verbatim>\<open>Transaction.Validate\<close> succeeds exactly when the transaction has an entry,
  every entry has an amount above zero, a direction DEBIT or CREDIT and a layer PHYSICAL
  or VIRTUAL, and in each of the two layers that has an entry the DEBIT amounts and the
  CREDIT amounts have the same sum. A layer without entries asks nothing.
\<close>

theorem Transaction_Validate_iff:
  "Transaction_Validate t = None \<longleftrightarrow>
     t_Entries t \<noteq> []
   \<and> (\<forall>e \<in> set (t_Entries t).
         0 < e_Amount e \<and> (e_Type e = EntryTypeDebit \<or> e_Type e = EntryTypeCredit)
         \<and> (e_Layer e = LayerPhysical \<or> e_Layer e = LayerVirtual))
   \<and> (\<forall>L \<in> {LayerPhysical, LayerVirtual}.
         (\<exists>e \<in> set (t_Entries t). e_Layer e = L)
         \<longrightarrow> layer_sum EntryTypeDebit L (t_Entries t) = layer_sum EntryTypeCredit L (t_Entries t))"
proof (cases "\<forall>e \<in> set (t_Entries t). entry_ok e")
  case True
  note sep = separate_entries_ok [OF True, of "[]" "[]"]
  note p = validateLayerBalance_layer [OF True, of LayerPhysical]
  note v = validateLayerBalance_layer [OF True, of LayerVirtual]
  have "Transaction_Validate t = None \<longleftrightarrow>
          t_Entries t \<noteq> []
        \<and> validateLayerBalance (filter (\<lambda>e. e_Layer e = LayerPhysical) (t_Entries t)) LayerPhysical = None
        \<and> validateLayerBalance (filter (\<lambda>e. e_Layer e = LayerVirtual) (t_Entries t)) LayerVirtual = None"
    by (auto simp: Transaction_Validate_def sep split: option.splits)
  then show ?thesis using True unfolding p v by (auto simp: entry_ok_def)
next
  case False
  from separate_entries_bad [OF False, of "[]" "[]"]
  have "Transaction_Validate t \<noteq> None"
    by (auto simp: Transaction_Validate_def)
  then show ?thesis using False by (auto simp: entry_ok_def)
qed

text \<open>
  A transaction with three PHYSICAL entries (debit 100, credits 60 and 40) and no
  VIRTUAL entry satisfies the right-hand side, hence validates.
\<close>

theorem Transaction_Validate_iff_witness:
  "t_Entries physical_only_tx \<noteq> []
   \<and> list_all entry_ok (t_Entries physical_only_tx)
   \<and> layer_sum EntryTypeDebit LayerPhysical (t_Entries physical_only_tx) = 100
   \<and> layer_sum EntryTypeCredit LayerPhysical (t_Entries physical_only_tx) = 100
   \<and> filter (\<lambda>e. e_Layer e = LayerVirtual) (t_Entries physical_only_tx) = []
   \<and> Transaction_Validate physical_only_tx = None"
proof -
  have rhs: "t_Entries physical_only_tx \<noteq> []
   \<and> (\<forall>e \<in> set (t_Entries physical_only_tx).
         0 < e_Amount e \<and> (e_Type e = EntryTypeDebit \<or> e_Type e = EntryTypeCredit)
         \<and> (e_Layer e = LayerPhysical \<or> e_Layer e = LayerVirtual))
   \<and> (\<forall>L \<in> {LayerPhysical, LayerVirtual}.
         (\<exists>e \<in> set (t_Entries physical_only_tx). e_Layer e = L)
         \<longrightarrow> layer_sum EntryTypeDebit L (t_Entries physical_only_tx)
             = layer_sum EntryTypeCredit L (t_Entries physical_only_tx))"
    by (simp add: physical_only_tx_def mk_entry_def layer_sum_def)
  have facts: "t_Entries physical_only_tx \<noteq> []
   \<and> list_all entry_ok (t_Entries physical_only_tx)
   \<and> layer_sum EntryTypeDebit LayerPhysical (t_Entries physical_only_tx) = 100
   \<and> layer_sum EntryTypeCredit LayerPhysical (t_Entries physical_only_tx) = 100
   \<and> filter (\<lambda>e. e_Layer e = LayerVirtual) (t_Entries physical_only_tx) = []"
    by (simp add: physical_only_tx_def mk_entry_def layer_sum_def entry_ok_def)
  from Transaction_Validate_iff [of physical_only_tx, THEN iffD2, OF rhs] facts
  show ?thesis by simp
qed

section \<open>Properties of the dashboard and investment services\<close>

lemma latest_row_None: "latest_row rows = None \<longleftrightarrow> rows = []"
  by (induction rows) (auto split: option.splits)

lemma latest_row_Some:
  "latest_row rows = Some e \<Longrightarrow> e \<in> set rows \<and> (\<forall>row \<in> set rows. mv_Date row \<le> mv_Date e)"
proof (induction rows arbitrary: e)
  case Nil
  then show ?case by simp
next
  case (Cons a rows)
  show ?case
  proof (cases "latest_row rows")
    case None
    then have "rows = []" by (simp add: latest_row_None)
    with Cons.prems show ?thesis by simp
  next
    case (Some other)
    from Cons.IH [OF Some]
    have o: "other \<in> set rows" "\<forall>row \<in> set rows. mv_Date row \<le> mv_Date other" by simp_all
    show ?thesis
    proof (cases "mv_Date a < mv_Date other")
      case True
      with Cons.prems Some have "e = other" by simp
      with o True show ?thesis by auto
    next
      case False
      with Cons.prems Some have "e = a" by simp
      with o False show ?thesis by fastforce
    qed
  qed
qed

lemma latest_row_snoc_newer:
  "\<forall>row \<in> set rows. mv_Date row < mv_Date e \<Longrightarrow> latest_row (rows @ [e]) = Some e"
  by (induction rows) auto

lemma fold_balance:
  "fold (\<lambda>bucket liquidity. liquidity + b_CurrentBalance bucket) bs a
   = a + sum_list (map b_CurrentBalance bs)"
  by (induction bs arbitrary: a) (auto simp: algebra_simps)

lemma fold_equity:
  "fold (\<lambda>bucket equity.
           case MarketValueRepo_GetLatest store (b_ID bucket) of
             Inl err \<Rightarrow> equity
           | Inr marketValueEntry \<Rightarrow> equity + mv_MarketValue marketValueEntry) bs a
   = a + sum_list (map (latest_market_value store) bs)"
  by (induction bs arbitrary: a) (auto simp: latest_market_value_def algebra_simps split: sum.splits)

lemma GetNetWorth_char:
  "GetNetWorth store =
     Inr \<lparr>nw_Total = sum_list (map b_CurrentBalance (buckets_of_type store BucketTypePhysical))
                      + sum_list (map (latest_market_value store)
                                   (buckets_of_type store BucketTypeEquity)),
          nw_Liquidity = sum_list (map b_CurrentBalance (buckets_of_type store BucketTypePhysical)),
          nw_Equity = sum_list (map (latest_market_value store)
                                   (buckets_of_type store BucketTypeEquity))\<rparr>"
  by (simp add: GetNetWorth_def BucketRepo_List_def fold_balance fold_equity buckets_of_type_def
      Let_def)

text \<open>
  C8. A net worth that \<^verbatim>\<open>GetNetWorth\<close> returns has Total = Liquidity + Equity;
  Liquidity is the sum of the balances of the PHYSICAL buckets and of nothing else; Equity
  is the sum over the EQUITY buckets of what each contributes: 0 for a bucket without a
  market-value point, else the value of a point of that bucket than which none is later.
\<close>

theorem GetNetWorth_decomposition:
  assumes "GetNetWorth store = Inr result"
  shows "nw_Total result = nw_Liquidity result + nw_Equity result
    \<and> nw_Liquidity result
        = sum_list (map b_CurrentBalance (buckets_of_type store BucketTypePhysical))
    \<and> nw_Equity result
        = sum_list (map (latest_market_value store) (buckets_of_type store BucketTypeEquity))
    \<and> (\<forall>bucket.
          (\<forall>row \<in> set (market_value_history store). mv_BucketID row \<noteq> b_ID bucket)
            \<longrightarrow> latest_market_value store bucket = 0)
    \<and> (\<forall>bucket.
          (\<exists>row \<in> set (market_value_history store). mv_BucketID row = b_ID bucket)
            \<longrightarrow> (\<exists>e \<in> set (market_value_history store).
                   mv_BucketID e = b_ID bucket
                 \<and> (\<forall>row \<in> set (market_value_history store).
                       mv_BucketID row = b_ID bucket \<longrightarrow> mv_Date row \<le> mv_Date e)
                 \<and> latest_market_value store bucket = mv_MarketValue e))"
proof -
  have none: "latest_market_value store bucket = 0"
    if "\<forall>row \<in> set (market_value_history store). mv_BucketID row \<noteq> b_ID bucket" for bucket
  proof -
    from that have "filter (\<lambda>row. mv_BucketID row = b_ID bucket) (market_value_history store) = []"
      by (simp add: filter_empty_conv)
    then show ?thesis
      by (simp add: latest_market_value_def MarketValueRepo_GetLatest_def)
  qed
  have some: "\<exists>e \<in> set (market_value_history store).
                   mv_BucketID e = b_ID bucket
                 \<and> (\<forall>row \<in> set (market_value_history store).
                       mv_BucketID row = b_ID bucket \<longrightarrow> mv_Date row \<le> mv_Date e)
                 \<and> latest_market_value store bucket = mv_MarketValue e"
    if "\<exists>row \<in> set (market_value_history store). mv_BucketID row = b_ID bucket" for bucket
  proof -
    let ?rows = "filter (\<lambda>row. mv_BucketID row = b_ID bucket) (market_value_history store)"
    from that have "?rows \<noteq> []" by (simp add: filter_empty_conv)
    then obtain e where e: "latest_row ?rows = Some e"
      using latest_row_None [of ?rows] by auto
    from latest_row_Some [OF e]
    have "e \<in> set ?rows" and "\<forall>row \<in> set ?rows. mv_Date row \<le> mv_Date e" by simp_all
    moreover have "latest_market_value store bucket = mv_MarketValue e"
      by (simp add: latest_market_value_def MarketValueRepo_GetLatest_def e)
    ultimately show ?thesis by auto
  qed
  from assms have "result = \<lparr>nw_Total = sum_list (map b_CurrentBalance (buckets_of_type store BucketTypePhysical))
                      + sum_list (map (latest_market_value store)
                                   (buckets_of_type store BucketTypeEquity)),
          nw_Liquidity = sum_list (map b_CurrentBalance (buckets_of_type store BucketTypePhysical)),
          nw_Equity = sum_list (map (latest_market_value store)
                                   (buckets_of_type store BucketTypeEquity))\<rparr>"
    by (simp add: GetNetWorth_char)
  then show ?thesis using none some by simp
qed

text \<open>
  With Checking 1200, Broker Cash 300, an envelope of 1200, Tesla (points 600 at time 1,
  650 at time 3, 700 at time 2) and an Index Fund without points: liquidity 1500, equity
  650, total 2150.
\<close>

theorem GetNetWorth_decomposition_witness:
  "GetNetWorth store_net_worth = Inr \<lparr>nw_Total = 2150, nw_Liquidity = 1500, nw_Equity = 650\<rparr>
   \<and> (2150 :: decimal) = 1500 + 650
   \<and> sum_list (map b_CurrentBalance (buckets_of_type store_net_worth BucketTypePhysical)) = 1500
   \<and> sum_list (map (latest_market_value store_net_worth)
                 (buckets_of_type store_net_worth BucketTypeEquity)) = 650"
proof -
  have h: "GetNetWorth store_net_worth
           = Inr \<lparr>nw_Total = 2150, nw_Liquidity = 1500, nw_Equity = 650\<rparr>"
    by code_simp
  from GetNetWorth_decomposition [OF h] h show ?thesis by simp
qed

lemma BucketRepo_GetByID_Inr:
  "BucketRepo_GetByID store bucketID = Inr bucket \<Longrightarrow>
   bucket \<in> set (buckets store) \<and> b_ID bucket = bucketID"
  by (auto simp: BucketRepo_GetByID_def find_Some_iff split: option.splits)

text \<open>
  C9. For an existing bucket and a value above zero, \<^verbatim>\<open>UpdateMarketValue\<close> succeeds
  and appends exactly one point, carrying the bucket, the value and the current time; the
  transactions, the buckets (with their balances) and the split rules are as before. If
  the bucket's earlier points are all older than now, the new point is its latest.
\<close>

theorem UpdateMarketValue_appends_point:
  assumes found: "BucketRepo_GetByID store bucketID = Inr bucket"
    and pos: "0 < amount"
  shows "\<exists>entry store'.
      UpdateMarketValue env store bucketID amount = (Inr entry, store')
    \<and> mv_BucketID entry = bucketID \<and> mv_MarketValue entry = amount
    \<and> mv_Date entry = env_now env
    \<and> market_value_history store' = market_value_history store @ [entry]
    \<and> transactions store' = transactions store
    \<and> buckets store' = buckets store
    \<and> split_rules store' = split_rules store
    \<and> ((\<forall>row \<in> set (market_value_history store).
            mv_BucketID row = bucketID \<longrightarrow> mv_Date row < env_now env)
         \<longrightarrow> MarketValueRepo_GetLatest store' bucketID = Inr entry)"
proof -
  let ?entry = "\<lparr>mv_ID = env_uuid env 0, mv_BucketID = bucketID,
                 mv_Date = env_now env, mv_MarketValue = amount\<rparr>"
  let ?store' = "store\<lparr>market_value_history := market_value_history store @ [?entry]\<rparr>"
  from BucketRepo_GetByID_Inr [OF found]
  have fk: "bucketID \<in> b_ID ` set (buckets store)" by auto
  have run: "UpdateMarketValue env store bucketID amount = (Inr ?entry, ?store')"
    using pos fk by (simp add: UpdateMarketValue_def found MarketValueRepo_Add_def Let_def)
  have latest: "MarketValueRepo_GetLatest ?store' bucketID = Inr ?entry"
    if "\<forall>row \<in> set (market_value_history store).
            mv_BucketID row = bucketID \<longrightarrow> mv_Date row < env_now env"
  proof -
    let ?rows = "filter (\<lambda>row. mv_BucketID row = bucketID) (market_value_history store)"
    from that have "\<forall>row \<in> set ?rows. mv_Date row < mv_Date ?entry" by simp
    from latest_row_snoc_newer [OF this]
    show ?thesis by (simp add: MarketValueRepo_GetLatest_def)
  qed
  show ?thesis
    by (rule exI [of _ ?entry], rule exI [of _ ?store']) (use run latest in simp)
qed

text \<open>
  Tesla, an EQUITY bucket of balance 0, revalued at 650: one point, no transaction, the
  net worth reports equity 650, and Tesla still has balance 0.
\<close>

theorem UpdateMarketValue_appends_point_witness:
  "BucketRepo_GetByID store_tesla 1 = Inr (mk_bucket 1 ''Tesla'' BucketTypeEquity None 0)
   \<and> (0 :: decimal) < 650
   \<and> (\<exists>entry store'.
        UpdateMarketValue env0 store_tesla 1 650 = (Inr entry, store')
      \<and> mv_MarketValue entry = 650
      \<and> market_value_history store' = [entry]
      \<and> transactions store' = []
      \<and> GetNetWorth store' = Inr \<lparr>nw_Total = 650, nw_Liquidity = 0, nw_Equity = 650\<rparr>
      \<and> BucketRepo_GetByID store' 1 = Inr (mk_bucket 1 ''Tesla'' BucketTypeEquity None 0))"
proof -
  have h1: "BucketRepo_GetByID store_tesla 1 = Inr (mk_bucket 1 ''Tesla'' BucketTypeEquity None 0)"
    by (simp add: BucketRepo_GetByID_def store_tesla_def mk_bucket_def)
  have h2: "(0 :: decimal) < 650" by simp
  from UpdateMarketValue_appends_point [OF h1 h2, of env0]
  obtain entry store' where
    run: "UpdateMarketValue env0 store_tesla 1 650 = (Inr entry, store')"
    and v: "mv_MarketValue entry = 650"
    and b: "mv_BucketID entry = 1"
    and m: "market_value_history store' = market_value_history store_tesla @ [entry]"
    and t: "transactions store' = transactions store_tesla"
    and bs: "buckets store' = buckets store_tesla"
    by blast
  have m': "market_value_history store' = [entry]" using m by (simp add: store_tesla_def)
  have t': "transactions store' = []" using t by (simp add: store_tesla_def)
  have g: "BucketRepo_GetByID store' 1 = Inr (mk_bucket 1 ''Tesla'' BucketTypeEquity None 0)"
    using h1 by (simp add: BucketRepo_GetByID_def bs)
  have nw: "GetNetWorth store' = Inr \<lparr>nw_Total = 650, nw_Liquidity = 0, nw_Equity = 650\<rparr>"
    by (simp add: GetNetWorth_char buckets_of_type_def bs latest_market_value_def
        MarketValueRepo_GetLatest_def m' b v store_tesla_def mk_bucket_def)
  from h1 h2 run v m' t' nw g show ?thesis by blast
qed

section \<open>Properties of posting\<close>

lemma update_bucket_balance_find:
  "find (\<lambda>b. b_ID b = k) (update_bucket_balance e rows)
   = map_option (\<lambda>b. b\<lparr>b_CurrentBalance := b_CurrentBalance b + entry_delta k e\<rparr>)
       (find (\<lambda>b. b_ID b = k) rows)"
  by (induction rows) (auto simp: update_bucket_balance_def entry_delta_def)

lemma insert_entries_find:
  "insert_entries txIDs es rows = Inr rows' \<Longrightarrow>
   find (\<lambda>b. b_ID b = k) rows'
   = map_option (\<lambda>b. b\<lparr>b_CurrentBalance := b_CurrentBalance b + sum_list (map (entry_delta k) es)\<rparr>)
       (find (\<lambda>b. b_ID b = k) rows)"
proof (induction es arbitrary: rows)
  case Nil
  then show ?case by (simp add: option.map_ident)
next
  case (Cons e es)
  from Cons.prems have "insert_entries txIDs es (update_bucket_balance e rows) = Inr rows'"
    by (simp split: if_splits)
  from Cons.IH [OF this] show ?case
    by (simp add: update_bucket_balance_find option.map_comp o_def algebra_simps)
qed

lemma TransactionRepo_Create_None:
  assumes "TransactionRepo_Create store tx = (None, store')"
  shows "transactions store' = transactions store @ [tx]"
    and "market_value_history store' = market_value_history store"
    and "split_rules store' = split_rules store"
    and "BucketRepo_GetByID store' k
         = (case BucketRepo_GetByID store k of
              Inl err \<Rightarrow> Inl err
            | Inr b \<Rightarrow> Inr (b\<lparr>b_CurrentBalance :=
                               b_CurrentBalance b + sum_list (map (entry_delta k) (t_Entries tx))\<rparr>))"
proof -
  from assms obtain rows where
    ins: "insert_entries (t_ID tx # map t_ID (transactions store)) (t_Entries tx) (buckets store)
          = Inr rows"
    and st: "store' = store\<lparr>buckets := rows, transactions := transactions store @ [tx]\<rparr>"
    by (auto simp: TransactionRepo_Create_def split: sum.splits)
  show "transactions store' = transactions store @ [tx]" by (simp add: st)
  show "market_value_history store' = market_value_history store" by (simp add: st)
  show "split_rules store' = split_rules store" by (simp add: st)
  show "BucketRepo_GetByID store' k
         = (case BucketRepo_GetByID store k of
              Inl err \<Rightarrow> Inl err
            | Inr b \<Rightarrow> Inr (b\<lparr>b_CurrentBalance :=
                               b_CurrentBalance b + sum_list (map (entry_delta k) (t_Entries tx))\<rparr>))"
    using insert_entries_find [OF ins, of k]
    by (simp add: BucketRepo_GetByID_def st split: option.splits)
qed

lemma validate_and_create_Inr:
  "validate_and_create store tx = (Inr tx', store') \<Longrightarrow>
   tx' = tx \<and> Transaction_Validate tx = None \<and> TransactionRepo_Create store tx = (None, store')"
  by (auto simp: validate_and_create_def split: option.splits prod.splits)

lemma balance_of_Create:
  assumes "TransactionRepo_Create store tx = (None, store')"
  shows "balance_of store' k
         = map_option (\<lambda>x. x + sum_list (map (entry_delta k) (t_Entries tx))) (balance_of store k)"
  by (simp add: balance_of_def TransactionRepo_Create_None(4) [OF assms] split: sum.splits)

lemma LogExpense_InrD:
  assumes "LogExpense env store input = (Inr tx, store')"
  shows "\<exists>virtualBucket categoryBucket source.
      0 < le_Amount input
    \<and> BucketRepo_GetByID store (le_VirtualBucketID input) = Inr virtualBucket
    \<and> b_BucketType virtualBucket = BucketTypeVirtual
    \<and> BucketRepo_GetByID store (le_CategoryBucketID input) = Inr categoryBucket
    \<and> b_BucketType categoryBucket = BucketTypeExpense
    \<and> expense_source store virtualBucket (le_PhysicalOverrideID input) = Inr source
    \<and> tx = expense_transaction env input source
    \<and> Transaction_Validate tx = None
    \<and> TransactionRepo_Create store tx = (None, store')"
  using assms unfolding LogExpense_def
  by (auto split: if_splits sum.splits dest!: validate_and_create_Inr)

lemma parents_physicalD:
  assumes "parents_physical store" and "b \<in> set (buckets store)"
    and "b_ParentPhysicalBucketID b = Some parent"
  shows "\<exists>parentBucket. BucketRepo_GetByID store parent = Inr parentBucket
           \<and> b_BucketType parentBucket = BucketTypePhysical"
proof -
  from assms(1,2) have "case b_ParentPhysicalBucketID b of
          None \<Rightarrow> True
        | Some parent \<Rightarrow>
            (case BucketRepo_GetByID store parent of
               Inl err \<Rightarrow> False
             | Inr parentBucket \<Rightarrow> b_BucketType parentBucket = BucketTypePhysical)"
    unfolding parents_physical_def by (rule bspec)
  with assms(3) show ?thesis by (simp split: sum.splits)
qed

lemma LogExpense_source:
  assumes src: "expense_source store virtualBucket (le_PhysicalOverrideID input) = Inr source"
    and vb: "BucketRepo_GetByID store (le_VirtualBucketID input) = Inr virtualBucket"
    and inv: "le_PhysicalOverrideID input \<noteq> None \<or> parents_physical store"
  shows "\<exists>sourceBucket. BucketRepo_GetByID store source = Inr sourceBucket
           \<and> b_BucketType sourceBucket = BucketTypePhysical"
    and "case le_PhysicalOverrideID input of
           Some overrideID \<Rightarrow> source = overrideID
         | None \<Rightarrow> b_ParentPhysicalBucketID virtualBucket = Some source"
proof -
  show "case le_PhysicalOverrideID input of
           Some overrideID \<Rightarrow> source = overrideID
         | None \<Rightarrow> b_ParentPhysicalBucketID virtualBucket = Some source"
    using src by (auto simp: expense_source_def split: option.splits sum.splits if_splits)
  show "\<exists>sourceBucket. BucketRepo_GetByID store source = Inr sourceBucket
           \<and> b_BucketType sourceBucket = BucketTypePhysical"
  proof (cases "le_PhysicalOverrideID input")
    case (Some overrideID)
    with src show ?thesis
      by (auto simp: expense_source_def split: sum.splits if_splits)
  next
    case None
    with inv have pp: "parents_physical store" by simp
    from None src have p: "b_ParentPhysicalBucketID virtualBucket = Some source"
      by (auto simp: expense_source_def split: option.splits)
    from BucketRepo_GetByID_Inr [OF vb] have "virtualBucket \<in> set (buckets store)" by simp
    with pp p show ?thesis by (intro parents_physicalD)
  qed
qed

text \<open>
  C7. After a successful \<^verbatim>\<open>LogExpense\<close> the amount is above zero; the transaction has
  both flags false and exactly the four entries PHYSICAL CREDIT of the physical source,
  PHYSICAL DEBIT of the category, VIRTUAL CREDIT of the virtual bucket, VIRTUAL DEBIT of
  the category, each of the amount, where the source is the override (a PHYSICAL bucket)
  when one is given and the virtual bucket's parent otherwise; it is persisted; and the
  balance of every bucket has moved by the sum of what the four entries add to it under
  the balance-maintenance rule. Consequently, when an override is given or the store
  keeps the parent invariant (so that source, virtual bucket and category are three
  buckets), the source and the virtual bucket each go down by the amount and the category
  goes up by twice the amount.
\<close>

theorem LogExpense_four_entries:
  assumes run: "LogExpense env store input = (Inr tx, store')"
  shows "\<exists>source.
      (case le_PhysicalOverrideID input of
         Some overrideID \<Rightarrow>
           source = overrideID
           \<and> (\<exists>b. BucketRepo_GetByID store overrideID = Inr b
                  \<and> b_BucketType b = BucketTypePhysical)
       | None \<Rightarrow>
           (\<exists>b. BucketRepo_GetByID store (le_VirtualBucketID input) = Inr b
                \<and> b_ParentPhysicalBucketID b = Some source))
    \<and> 0 < le_Amount input
    \<and> t_IsInternalTransfer tx = False \<and> t_IsExternalInflow tx = False
    \<and> t_Entries tx =
        [\<lparr>e_ID = env_uuid env 1, e_TransactionID = t_ID tx, e_BucketID = source,
          e_Amount = le_Amount input, e_Type = EntryTypeCredit, e_Layer = LayerPhysical\<rparr>,
         \<lparr>e_ID = env_uuid env 2, e_TransactionID = t_ID tx,
          e_BucketID = le_CategoryBucketID input,
          e_Amount = le_Amount input, e_Type = EntryTypeDebit, e_Layer = LayerPhysical\<rparr>,
         \<lparr>e_ID = env_uuid env 3, e_TransactionID = t_ID tx,
          e_BucketID = le_VirtualBucketID input,
          e_Amount = le_Amount input, e_Type = EntryTypeCredit, e_Layer = LayerVirtual\<rparr>,
         \<lparr>e_ID = env_uuid env 4, e_TransactionID = t_ID tx,
          e_BucketID = le_CategoryBucketID input,
          e_Amount = le_Amount input, e_Type = EntryTypeDebit, e_Layer = LayerVirtual\<rparr>]
    \<and> transactions store' = transactions store @ [tx]
    \<and> (\<forall>bucketID.
          balance_of store' bucketID
          = map_option (\<lambda>balance. balance + sum_list (map (entry_delta bucketID) (t_Entries tx)))
              (balance_of store bucketID))
    \<and> (le_PhysicalOverrideID input \<noteq> None \<or> parents_physical store
        \<longrightarrow> (\<exists>before_source before_virtual before_category.
              balance_of store source = Some before_source
            \<and> balance_of store' source = Some (before_source - le_Amount input)
            \<and> balance_of store (le_VirtualBucketID input) = Some before_virtual
            \<and> balance_of store' (le_VirtualBucketID input)
                = Some (before_virtual - le_Amount input)
            \<and> balance_of store (le_CategoryBucketID input) = Some before_category
            \<and> balance_of store' (le_CategoryBucketID input)
                = Some (before_category + 2 * le_Amount input)))"
proof -
  from LogExpense_InrD [OF run] obtain virtualBucket categoryBucket source where
    pos: "0 < le_Amount input"
    and vb: "BucketRepo_GetByID store (le_VirtualBucketID input) = Inr virtualBucket"
    and vt: "b_BucketType virtualBucket = BucketTypeVirtual"
    and cb: "BucketRepo_GetByID store (le_CategoryBucketID input) = Inr categoryBucket"
    and ct: "b_BucketType categoryBucket = BucketTypeExpense"
    and src: "expense_source store virtualBucket (le_PhysicalOverrideID input) = Inr source"
    and tx: "tx = expense_transaction env input source"
    and cr: "TransactionRepo_Create store tx = (None, store')"
    by blast
  have d3: "le_VirtualBucketID input \<noteq> le_CategoryBucketID input" using vb vt cb ct by auto
  have entries: "t_Entries tx =
        [\<lparr>e_ID = env_uuid env 1, e_TransactionID = t_ID tx, e_BucketID = source,
          e_Amount = le_Amount input, e_Type = EntryTypeCredit, e_Layer = LayerPhysical\<rparr>,
         \<lparr>e_ID = env_uuid env 2, e_TransactionID = t_ID tx,
          e_BucketID = le_CategoryBucketID input,
          e_Amount = le_Amount input, e_Type = EntryTypeDebit, e_Layer = LayerPhysical\<rparr>,
         \<lparr>e_ID = env_uuid env 3, e_TransactionID = t_ID tx,
          e_BucketID = le_VirtualBucketID input,
          e_Amount = le_Amount input, e_Type = EntryTypeCredit, e_Layer = LayerVirtual\<rparr>,
         \<lparr>e_ID = env_uuid env 4, e_TransactionID = t_ID tx,
          e_BucketID = le_CategoryBucketID input,
          e_Amount = le_Amount input, e_Type = EntryTypeDebit, e_Layer = LayerVirtual\<rparr>]"
    by (simp add: tx expense_transaction_def Let_def)
  have flags: "t_IsInternalTransfer tx = False \<and> t_IsExternalInflow tx = False"
    by (simp add: tx expense_transaction_def Let_def)
  have w: "case le_PhysicalOverrideID input of
         Some overrideID \<Rightarrow>
           source = overrideID
           \<and> (\<exists>b. BucketRepo_GetByID store overrideID = Inr b
                  \<and> b_BucketType b = BucketTypePhysical)
       | None \<Rightarrow>
           (\<exists>b. BucketRepo_GetByID store (le_VirtualBucketID input) = Inr b
                \<and> b_ParentPhysicalBucketID b = Some source)"
    using src vb
    by (auto simp: expense_source_def split: option.splits sum.splits if_splits)
  have rule: "\<forall>bucketID.
          balance_of store' bucketID
          = map_option (\<lambda>balance. balance + sum_list (map (entry_delta bucketID) (t_Entries tx)))
              (balance_of store bucketID)"
    using balance_of_Create [OF cr] by simp
  have three: "\<exists>before_source before_virtual before_category.
              balance_of store source = Some before_source
            \<and> balance_of store' source = Some (before_source - le_Amount input)
            \<and> balance_of store (le_VirtualBucketID input) = Some before_virtual
            \<and> balance_of store' (le_VirtualBucketID input)
                = Some (before_virtual - le_Amount input)
            \<and> balance_of store (le_CategoryBucketID input) = Some before_category
            \<and> balance_of store' (le_CategoryBucketID input)
                = Some (before_category + 2 * le_Amount input)"
    if inv: "le_PhysicalOverrideID input \<noteq> None \<or> parents_physical store"
  proof -
    from LogExpense_source(1) [OF src vb inv] obtain sourceBucket where
      sb: "BucketRepo_GetByID store source = Inr sourceBucket"
      and st: "b_BucketType sourceBucket = BucketTypePhysical"
      by blast
    have d1: "source \<noteq> le_VirtualBucketID input" using sb st vb vt by auto
    have d2: "source \<noteq> le_CategoryBucketID input" using sb st cb ct by auto
    have s1: "sum_list (map (entry_delta source) (t_Entries tx)) = - le_Amount input"
      using d1 d2 by (simp add: entries entry_delta_def)
    have s2: "sum_list (map (entry_delta (le_VirtualBucketID input)) (t_Entries tx))
              = - le_Amount input"
      using d1 d3 by (simp add: entries entry_delta_def)
    have s3: "sum_list (map (entry_delta (le_CategoryBucketID input)) (t_Entries tx))
              = 2 * le_Amount input"
      using d2 d3 by (simp add: entries entry_delta_def)
    have b1: "balance_of store source = Some (b_CurrentBalance sourceBucket)"
      by (simp add: balance_of_def sb)
    have b2: "balance_of store (le_VirtualBucketID input)
              = Some (b_CurrentBalance virtualBucket)"
      by (simp add: balance_of_def vb)
    have b3: "balance_of store (le_CategoryBucketID input)
              = Some (b_CurrentBalance categoryBucket)"
      by (simp add: balance_of_def cb)
    have a1: "balance_of store' source = Some (b_CurrentBalance sourceBucket - le_Amount input)"
      by (simp add: balance_of_Create [OF cr] b1 s1)
    have a2: "balance_of store' (le_VirtualBucketID input)
              = Some (b_CurrentBalance virtualBucket - le_Amount input)"
      by (simp add: balance_of_Create [OF cr] b2 s2)
    have a3: "balance_of store' (le_CategoryBucketID input)
              = Some (b_CurrentBalance categoryBucket + 2 * le_Amount input)"
      by (simp add: balance_of_Create [OF cr] b3 s3)
    from b1 a1 b2 a2 b3 a3 show ?thesis by blast
  qed
  from w pos flags entries TransactionRepo_Create_None(1) [OF cr] rule three
  show ?thesis by blast
qed

text \<open>
  Main Bank 1000, Unallocated 1000, Groceries 0; an expense of 50 from Unallocated to
  Groceries leaves 950, 950 and 100.
\<close>

theorem LogExpense_four_entries_witness:
  "parents_physical store_expense
   \<and> (\<exists>tx store'.
        LogExpense env0 store_expense expense_50 = (Inr tx, store')
      \<and> length (t_Entries tx) = 4
      \<and> balance_of store_expense 1 = Some 1000
      \<and> balance_of store_expense 2 = Some 1000
      \<and> balance_of store_expense 3 = Some 0
      \<and> balance_of store' 1 = Some 950
      \<and> balance_of store' 2 = Some 950
      \<and> balance_of store' 3 = Some 100)"
proof -
  have inv: "parents_physical store_expense"
    by (simp add: parents_physical_def store_expense_def mk_bucket_def BucketRepo_GetByID_def)
  have "\<not> isl (fst (LogExpense env0 store_expense expense_50))" by code_simp
  then obtain tx store' where run: "LogExpense env0 store_expense expense_50 = (Inr tx, store')"
    by (cases "LogExpense env0 store_expense expense_50";
        cases "fst (LogExpense env0 store_expense expense_50)") auto
  have g2: "BucketRepo_GetByID store_expense 2
            = Inr (mk_bucket 2 ''Unallocated'' BucketTypeVirtual (Some 1) 1000)"
    by (simp add: BucketRepo_GetByID_def store_expense_def mk_bucket_def)
  have b1: "balance_of store_expense 1 = Some 1000"
    and b2: "balance_of store_expense 2 = Some 1000"
    and b3: "balance_of store_expense 3 = Some 0"
    by (simp_all add: balance_of_def BucketRepo_GetByID_def store_expense_def mk_bucket_def)
  from LogExpense_four_entries [OF run] inv
  obtain source before_source before_virtual before_category where
    src: "\<exists>b. BucketRepo_GetByID store_expense 2 = Inr b
              \<and> b_ParentPhysicalBucketID b = Some source"
    and en: "length (t_Entries tx) = 4"
    and s0: "balance_of store_expense source = Some before_source"
    and s1: "balance_of store' source = Some (before_source - 50)"
    and v0: "balance_of store_expense 2 = Some before_virtual"
    and v1: "balance_of store' 2 = Some (before_virtual - 50)"
    and c0: "balance_of store_expense 3 = Some before_category"
    and c1: "balance_of store' 3 = Some (before_category + 2 * 50)"
    by (auto simp: expense_50_def)
  from src g2 have "source = 1" by (simp add: mk_bucket_def)
  with s0 s1 v0 v1 c0 c1 b1 b2 b3
  have "balance_of store' 1 = Some 950" "balance_of store' 2 = Some 950"
    "balance_of store' 3 = Some 100"
    by simp_all
  with inv run en b1 b2 b3 show ?thesis by blast
qed

section \<open>Properties of the transfer-task generator\<close>

lemma flow_of_update:
  "flow_of (AList.update k v fl) a = (if a = k then v else flow_of fl a)"
  by (simp add: flow_of_def update_conv')

lemma flow_of_Nil [simp]: "flow_of [] a = 0"
  by (simp add: flow_of_def)

lemma net_flows_char:
  assumes "net_flows store es fl = Inr fl'"
  shows "flow_of fl' a
         = flow_of fl a
           + sum_list (map signed_amount
               (filter (\<lambda>e. physical_anchor store (e_BucketID e) = Some a) es))"
  using assms
proof (induction es arbitrary: fl)
  case Nil
  then show ?case by simp
next
  case (Cons e es)
  from Cons.prems obtain bucket where
    b: "BucketRepo_GetByID store (e_BucketID e) = Inr bucket"
    by (auto split: sum.splits)
  show ?case
  proof (cases "physical_anchor store (e_BucketID e)")
    case None
    with b Cons.prems have "net_flows store es fl = Inr fl'"
      by (auto simp: physical_anchor_def split: if_splits option.splits)
    from Cons.IH [OF this] None show ?thesis by simp
  next
    case (Some p)
    with b have sel: "(if b_BucketType bucket = BucketTypePhysical then Inr (Some (b_ID bucket))
                 else if b_BucketType bucket = BucketTypeVirtual then
                   (case b_ParentPhysicalBucketID bucket of
                      None \<Rightarrow> Inl ErrVirtualWithoutParent
                    | Some parent \<Rightarrow> Inr (Some parent))
                 else Inr None) = Inr (Some p)"
      by (auto simp: physical_anchor_def split: if_splits)
    consider (debit) "e_Type e = EntryTypeDebit"
      | (credit) "e_Type e \<noteq> EntryTypeDebit" "e_Type e = EntryTypeCredit"
      | (other) "e_Type e \<noteq> EntryTypeDebit" "e_Type e \<noteq> EntryTypeCredit"
      by blast
    then show ?thesis
    proof cases
      case debit
      with Cons.prems b sel
      have "net_flows store es (AList.update p (flow_of fl p + e_Amount e) fl) = Inr fl'"
        by (simp add: Let_def)
      from Cons.IH [OF this] Some debit show ?thesis
        by (simp add: flow_of_update signed_amount_def)
    next
      case credit
      with Cons.prems b sel
      have "net_flows store es (AList.update p (flow_of fl p - e_Amount e) fl) = Inr fl'"
        by (simp add: Let_def)
      from Cons.IH [OF this] Some credit show ?thesis
        by (simp add: flow_of_update signed_amount_def)
    next
      case other
      with Cons.prems b sel have "net_flows store es fl = Inr fl'"
        by (simp add: Let_def)
      from Cons.IH [OF this] Some other show ?thesis
        by (simp add: signed_amount_def)
    qed
  qed
qed

lemma net_flows_distinct:
  "net_flows store es fl = Inr fl' \<Longrightarrow> distinct (map fst fl) \<Longrightarrow> distinct (map fst fl')"
proof (induction es arbitrary: fl)
  case Nil
  then show ?case by simp
next
  case (Cons e es)
  from Cons.prems(1) show ?case
    by (auto simp: Let_def distinct_update Cons.prems(2)
             split: sum.splits option.splits if_splits intro: Cons.IH)
qed

lemma net_flows_total:
  assumes "\<forall>e \<in> set es.
             case BucketRepo_GetByID store (e_BucketID e) of
               Inl err \<Rightarrow> False
             | Inr bucket \<Rightarrow>
                 b_BucketType bucket = BucketTypeVirtual
                   \<longrightarrow> b_ParentPhysicalBucketID bucket \<noteq> None"
  shows "\<exists>fl'. net_flows store es fl = Inr fl'"
  using assms
  by (induction es arbitrary: fl) (auto simp: Let_def split: sum.splits option.splits)

lemma match_receivers_mono:
  "match_receivers env txID fromID amt rs fl tasks = (fl', tasks') \<Longrightarrow>
   length tasks \<le> length tasks'"
proof (induction rs arbitrary: amt fl tasks)
  case Nil
  then show ?case by simp
next
  case (Cons r rs)
  show ?case
  proof (cases "min amt (flow_of fl r) > 0")
    case False
    then have "\<not> (0 < amt \<and> 0 < flow_of fl r)" by simp
    with Cons.prems have "match_receivers env txID fromID amt rs fl tasks = (fl', tasks')"
      by (simp add: Let_def)
    from Cons.IH [OF this] show ?thesis .
  next
    case True
    let ?t = "min amt (flow_of fl r)"
    let ?task = "\<lparr>k_ID = env_uuid env (length tasks), k_RelatedTransactionID = txID,
                        k_CompletedTransactionID = None,
                        k_FromPhysicalBucketID = fromID,
                        k_ToPhysicalBucketID = r,
                        k_Amount = ?t, k_IsCompleted = False\<rparr>"
    show ?thesis
    proof (cases "amt - ?t \<le> 0")
      case True
      with \<open>min amt (flow_of fl r) > 0\<close> Cons.prems have "tasks' = tasks @ [?task]"
        by (simp add: Let_def)
      then show ?thesis by simp
    next
      case False
      with \<open>min amt (flow_of fl r) > 0\<close> Cons.prems
      have "match_receivers env txID fromID (amt - ?t) rs
              (AList.update r (flow_of fl r - ?t) fl) (tasks @ [?task]) = (fl', tasks')"
        by (simp add: Let_def)
      from Cons.IH [OF this] show ?thesis by simp
    qed
  qed
qed

lemma match_receivers_first:
  assumes "0 < amt" and "0 < flow_of fl r"
    and "match_receivers env txID fromID amt (r # rs) fl tasks = (fl', tasks')"
  shows "length tasks < length tasks'"
proof -
  let ?t = "min amt (flow_of fl r)"
  let ?task = "\<lparr>k_ID = env_uuid env (length tasks), k_RelatedTransactionID = txID,
                        k_CompletedTransactionID = None,
                        k_FromPhysicalBucketID = fromID,
                        k_ToPhysicalBucketID = r,
                        k_Amount = ?t, k_IsCompleted = False\<rparr>"
  have t: "?t > 0" using assms(1,2) by simp
  show ?thesis
  proof (cases "amt - ?t \<le> 0")
    case True
    with t assms(3) have "tasks' = tasks @ [?task]" by (simp add: Let_def)
    then show ?thesis by simp
  next
    case False
    with t assms(3)
    have "match_receivers env txID fromID (amt - ?t) rs
            (AList.update r (flow_of fl r - ?t) fl) (tasks @ [?task]) = (fl', tasks')"
      by (simp add: Let_def)
    from match_receivers_mono [OF this] show ?thesis by simp
  qed
qed

lemma match_senders_mono:
  "length tasks \<le> length (match_senders env txID ss rs fl tasks)"
proof (induction ss arbitrary: fl tasks)
  case Nil
  then show ?case by simp
next
  case (Cons s ss)
  obtain fl' tasks' where
    m: "match_receivers env txID s \<bar>flow_of fl s\<bar> rs fl tasks = (fl', tasks')"
    by (cases "match_receivers env txID s \<bar>flow_of fl s\<bar> rs fl tasks")
  from match_receivers_mono [OF m] Cons.IH [of tasks' fl'] show ?case
    by (simp add: m)
qed

lemma match_senders_no_receivers:
  "match_senders env txID ss [] fl tasks = tasks"
  by (induction ss arbitrary: fl tasks) auto

lemma match_senders_first:
  assumes "flow_of fl s < 0" and "0 < flow_of fl r"
  shows "match_senders env txID (s # ss) (r # rs) fl [] \<noteq> []"
proof -
  obtain fl' tasks' where
    m: "match_receivers env txID s \<bar>flow_of fl s\<bar> (r # rs) fl [] = (fl', tasks')"
    by (cases "match_receivers env txID s \<bar>flow_of fl s\<bar> (r # rs) fl []")
  have "0 < \<bar>flow_of fl s\<bar>" using assms(1) by simp
  from match_receivers_first [OF this assms(2) m] have "0 < length tasks'" by simp
  with match_senders_mono [of tasks' env txID ss "r # rs" fl']
  have "0 < length (match_senders env txID ss (r # rs) fl' tasks')" by linarith
  moreover have "match_senders env txID (s # ss) (r # rs) fl []
                 = match_senders env txID ss (r # rs) fl' tasks'"
    by (simp add: m del: match_receivers.simps)
  ultimately show ?thesis by auto
qed

lemma GenerateTasks_char:
  assumes rng: "range_ok env" and res: "resolvable store tx"
  shows "\<exists>tasks. GenerateTasks env store tx = Inr tasks
           \<and> (tasks \<noteq> [] \<longleftrightarrow> (\<exists>a. 0 < net_flow store tx a) \<and> (\<exists>a. net_flow store tx a < 0))"
proof -
  let ?es = "filter (\<lambda>entry. e_Layer entry = LayerVirtual) (t_Entries tx)"
  have nf: "sum_list (map signed_amount
               (filter (\<lambda>e. physical_anchor store (e_BucketID e) = Some a) ?es))
            = net_flow store tx a" for a
    by (simp add: net_flow_def conj_commute)
  show ?thesis
  proof (cases "?es = []")
    case True
    then have "net_flow store tx a = 0" for a using nf [of a] by simp
    with True show ?thesis by (simp add: GenerateTasks_def)
  next
    case False
    have "\<forall>e \<in> set ?es.
             case BucketRepo_GetByID store (e_BucketID e) of
               Inl err \<Rightarrow> False
             | Inr bucket \<Rightarrow>
                 b_BucketType bucket = BucketTypeVirtual
                   \<longrightarrow> b_ParentPhysicalBucketID bucket \<noteq> None"
      using res by (simp add: resolvable_def)
    from net_flows_total [OF this, of "[]"] obtain fl where
      fl: "net_flows store ?es [] = Inr fl" by blast
    have d: "distinct (map fst fl)" using net_flows_distinct [OF fl] by simp
    have fo: "flow_of fl a = net_flow store tx a" for a
      using net_flows_char [OF fl, of a] nf [of a] by simp
    let ?ranged = "env_range env 0 fl"
    let ?R = "map fst (filter (\<lambda>(bucketID, flow). flow > 0) ?ranged)"
    let ?S = "map fst (filter (\<lambda>(bucketID, flow). \<not> flow > 0 \<and> flow < 0) ?ranged)"
    have "mset ?ranged = mset fl" using rng by (simp add: range_ok_def)
    then have st: "set ?ranged = set fl" by (rule mset_eq_setD)
    have member: "(k, v) \<in> set fl \<longleftrightarrow> map_of fl k = Some v" for k v
      using d by simp
    have Rset: "set ?R = {a. 0 < flow_of fl a}"
    proof (intro set_eqI iffI)
      fix a assume "a \<in> set ?R"
      then obtain v where "(a, v) \<in> set fl" "0 < v" by (auto simp: st)
      then show "a \<in> {a. 0 < flow_of fl a}" using member by (simp add: flow_of_def)
    next
      fix a assume "a \<in> {a. 0 < flow_of fl a}"
      then obtain v where "map_of fl a = Some v" "0 < v"
        by (auto simp: flow_of_def split: option.splits)
      then have "(a, v) \<in> set ?ranged" using member st by simp
      with \<open>0 < v\<close> show "a \<in> set ?R" by force
    qed
    have Sset: "set ?S = {a. flow_of fl a < 0}"
    proof (intro set_eqI iffI)
      fix a assume "a \<in> set ?S"
      then obtain v where "(a, v) \<in> set fl" "v < 0" by (auto simp: st)
      then show "a \<in> {a. flow_of fl a < 0}" using member by (simp add: flow_of_def)
    next
      fix a assume "a \<in> {a. flow_of fl a < 0}"
      then obtain v where "map_of fl a = Some v" "v < 0"
        by (auto simp: flow_of_def split: option.splits)
      then have "(a, v) \<in> set ?ranged" using member st by simp
      with \<open>v < 0\<close> show "a \<in> set ?S" by force
    qed
    let ?tasks = "match_senders env (t_ID tx) ?S ?R fl []"
    have run: "GenerateTasks env store tx = Inr ?tasks"
      using False by (simp add: GenerateTasks_def fl Let_def)
    have "?tasks \<noteq> [] \<longleftrightarrow> ?S \<noteq> [] \<and> ?R \<noteq> []"
    proof
      assume ne: "?tasks \<noteq> []"
      show "?S \<noteq> [] \<and> ?R \<noteq> []"
      proof (rule ccontr)
        assume "\<not> (?S \<noteq> [] \<and> ?R \<noteq> [])"
        then consider "?S = []" | "?R = []" by blast
        then have "?tasks = []"
        proof cases
          case 1
          then show ?thesis by simp
        next
          case 2
          then show ?thesis by (simp add: match_senders_no_receivers)
        qed
        with ne show False by simp
      qed
    next
      assume "?S \<noteq> [] \<and> ?R \<noteq> []"
      then have "?S \<noteq> []" and "?R \<noteq> []" by simp_all
      from \<open>?S \<noteq> []\<close> obtain s ss where S: "?S = s # ss" by (cases ?S) simp_all
      from \<open>?R \<noteq> []\<close> obtain r rs where R: "?R = r # rs" by (cases ?R) simp_all
      have "s \<in> set ?S" "r \<in> set ?R" unfolding S R by simp_all
      then have "s \<in> {a. flow_of fl a < 0}" "r \<in> {a. 0 < flow_of fl a}"
        unfolding Sset Rset by simp_all
      then have "flow_of fl s < 0" "0 < flow_of fl r" by simp_all
      then show "?tasks \<noteq> []" unfolding S R by (rule match_senders_first)
    qed
    also have "\<dots> \<longleftrightarrow> set ?S \<noteq> {} \<and> set ?R \<noteq> {}" by (simp only: set_empty)
    also have "\<dots> \<longleftrightarrow> (\<exists>a. 0 < net_flow store tx a) \<and> (\<exists>a. net_flow store tx a < 0)"
      unfolding Sset Rset by (auto simp: fo)
    finally show ?thesis using run by blast
  qed
qed

lemma net_flows_bad:
  assumes "\<exists>e \<in> set es.
             case BucketRepo_GetByID store (e_BucketID e) of
               Inl err \<Rightarrow> True
             | Inr bucket \<Rightarrow>
                 b_BucketType bucket = BucketTypeVirtual
                 \<and> b_ParentPhysicalBucketID bucket = None"
  shows "\<exists>err. net_flows store es fl = Inl err"
  using assms
proof (induction es arbitrary: fl)
  case Nil
  then show ?case by simp
next
  case (Cons e es)
  show ?case
  proof (cases "case BucketRepo_GetByID store (e_BucketID e) of
               Inl err \<Rightarrow> True
             | Inr bucket \<Rightarrow>
                 b_BucketType bucket = BucketTypeVirtual
                 \<and> b_ParentPhysicalBucketID bucket = None")
    case True
    then show ?thesis by (auto split: sum.splits)
  next
    case False
    with Cons.prems have "\<exists>e \<in> set es.
             case BucketRepo_GetByID store (e_BucketID e) of
               Inl err \<Rightarrow> True
             | Inr bucket \<Rightarrow>
                 b_BucketType bucket = BucketTypeVirtual
                 \<and> b_ParentPhysicalBucketID bucket = None"
      by simp
    from Cons.IH [OF this] show ?thesis
      by (auto simp: Let_def split: sum.splits option.splits)
  qed
qed

lemma GenerateTasks_unresolvable:
  assumes "\<not> resolvable store tx"
  shows "\<exists>err. GenerateTasks env store tx = Inl err"
proof -
  let ?es = "filter (\<lambda>entry. e_Layer entry = LayerVirtual) (t_Entries tx)"
  from assms obtain e where e: "e \<in> set (t_Entries tx)" "e_Layer e = LayerVirtual"
    and nb: "\<not> (case BucketRepo_GetByID store (e_BucketID e) of
               Inl err \<Rightarrow> False
             | Inr bucket \<Rightarrow>
                 b_BucketType bucket = BucketTypeVirtual
                   \<longrightarrow> b_ParentPhysicalBucketID bucket \<noteq> None)"
    unfolding resolvable_def by blast
  from nb have bad: "case BucketRepo_GetByID store (e_BucketID e) of
               Inl err \<Rightarrow> True
             | Inr bucket \<Rightarrow>
                 b_BucketType bucket = BucketTypeVirtual
                 \<and> b_ParentPhysicalBucketID bucket = None"
    by (cases "BucketRepo_GetByID store (e_BucketID e)") simp_all
  from e have mem: "e \<in> set ?es" by simp
  have ne: "?es \<noteq> []"
  proof
    assume "?es = []"
    with mem show False by (simp only: set_simps empty_iff)
  qed
  from mem bad have "\<exists>e \<in> set ?es.
             case BucketRepo_GetByID store (e_BucketID e) of
               Inl err \<Rightarrow> True
             | Inr bucket \<Rightarrow>
                 b_BucketType bucket = BucketTypeVirtual
                 \<and> b_ParentPhysicalBucketID bucket = None"
    by blast
  from net_flows_bad [OF this, of "[]"] obtain err where
    "net_flows store ?es [] = Inl err" by blast
  with ne show ?thesis by (simp add: GenerateTasks_def)
qed

text \<open>
  C6. For every order in which Go ranges over the flow map: on a transaction whose
  VIRTUAL-layer entries resolve (each names a stored bucket, and a VIRTUAL bucket has a
  parent), \<^verbatim>\<open>GenerateTasks\<close> returns a list of tasks that is not empty exactly when
  some anchor has a net flow above zero and some anchor a net flow below zero; in
  particular it is empty when all VIRTUAL-layer entries resolve to one anchor or to none
  (skipped bucket types), and when every anchor nets to zero. On any other transaction
  it returns an error and no tasks.
\<close>

theorem GenerateTasks_iff_cross_anchor:
  assumes rng: "range_ok env"
  shows "(resolvable store tx \<longrightarrow>
      (\<exists>tasks. GenerateTasks env store tx = Inr tasks
        \<and> (tasks \<noteq> [] \<longleftrightarrow>
             (\<exists>a. 0 < net_flow store tx a) \<and> (\<exists>a. net_flow store tx a < 0))
        \<and> ((\<exists>anchor. \<forall>e \<in> set (t_Entries tx).
                e_Layer e = LayerVirtual \<longrightarrow>
                  physical_anchor store (e_BucketID e) = Some anchor
                  \<or> physical_anchor store (e_BucketID e) = None)
             \<longrightarrow> tasks = [])
        \<and> ((\<forall>a. net_flow store tx a = 0) \<longrightarrow> tasks = [])))
    \<and> (\<not> resolvable store tx \<longrightarrow> (\<exists>err. GenerateTasks env store tx = Inl err))"
proof (intro conjI impI)
  assume nres: "\<not> resolvable store tx"
  show "\<exists>err. GenerateTasks env store tx = Inl err"
    by (rule GenerateTasks_unresolvable [OF nres])
next
  assume res: "resolvable store tx"
  show "\<exists>tasks. GenerateTasks env store tx = Inr tasks
        \<and> (tasks \<noteq> [] \<longleftrightarrow>
             (\<exists>a. 0 < net_flow store tx a) \<and> (\<exists>a. net_flow store tx a < 0))
        \<and> ((\<exists>anchor. \<forall>e \<in> set (t_Entries tx).
                e_Layer e = LayerVirtual \<longrightarrow>
                  physical_anchor store (e_BucketID e) = Some anchor
                  \<or> physical_anchor store (e_BucketID e) = None)
             \<longrightarrow> tasks = [])
        \<and> ((\<forall>a. net_flow store tx a = 0) \<longrightarrow> tasks = [])"
  proof -
  from GenerateTasks_char [OF rng res] obtain tasks where
    run: "GenerateTasks env store tx = Inr tasks"
    and iff: "tasks \<noteq> [] \<longleftrightarrow> (\<exists>a. 0 < net_flow store tx a) \<and> (\<exists>a. net_flow store tx a < 0)"
    by blast
  have single: "tasks = []"
    if "\<forall>e \<in> set (t_Entries tx).
            e_Layer e = LayerVirtual \<longrightarrow>
              physical_anchor store (e_BucketID e) = Some anchor
              \<or> physical_anchor store (e_BucketID e) = None" for anchor
  proof (rule ccontr)
    assume "tasks \<noteq> []"
    with iff obtain a b where a: "0 < net_flow store tx a" and b: "net_flow store tx b < 0"
      by blast
    have z: "net_flow store tx c = 0" if "c \<noteq> anchor" for c
    proof -
      have "filter (\<lambda>e. e_Layer e = LayerVirtual \<and> physical_anchor store (e_BucketID e) = Some c)
              (t_Entries tx) = []"
        using \<open>c \<noteq> anchor\<close>
          \<open>\<forall>e \<in> set (t_Entries tx). e_Layer e = LayerVirtual \<longrightarrow>
              physical_anchor store (e_BucketID e) = Some anchor
              \<or> physical_anchor store (e_BucketID e) = None\<close>
        by (auto simp: filter_empty_conv)
      then show ?thesis by (simp add: net_flow_def)
    qed
    from a z [of a] have "a = anchor" by auto
    moreover from b z [of b] have "b = anchor" by auto
    ultimately show False using a b by simp
  qed
  have zero: "tasks = []" if "\<forall>a. net_flow store tx a = 0"
    using that iff by auto
    from run iff single zero show ?thesis by blast
qed
qed

text \<open>
  Moving 100 from FreeCash (of Checking) to Vault (of Savings): Checking nets -100,
  Savings nets 100, and a task is emitted.
\<close>

theorem GenerateTasks_iff_cross_anchor_witness:
  "range_ok env0 \<and> resolvable store_two_banks envelope_move
   \<and> net_flow store_two_banks envelope_move 1 = - 100
   \<and> net_flow store_two_banks envelope_move 2 = 100
   \<and> (\<exists>tasks. GenerateTasks env0 store_two_banks envelope_move = Inr tasks \<and> tasks \<noteq> [])"
proof -
  have h1: "range_ok env0" by (simp add: range_ok_def env0_def)
  have g3: "BucketRepo_GetByID store_two_banks 3
            = Inr (mk_bucket 3 ''FreeCash'' BucketTypeVirtual (Some 1) 500)"
    and g4: "BucketRepo_GetByID store_two_banks 4
            = Inr (mk_bucket 4 ''Vault'' BucketTypeVirtual (Some 2) 0)"
    by (simp_all add: BucketRepo_GetByID_def store_two_banks_def mk_bucket_def)
  have h2: "resolvable store_two_banks envelope_move"
    by (simp add: resolvable_def envelope_move_def mk_entry_def g3 g4) (simp add: mk_bucket_def)
  have a3: "physical_anchor store_two_banks 3 = Some 1"
    and a4: "physical_anchor store_two_banks 4 = Some 2"
    by (simp_all add: physical_anchor_def g3 g4) (simp_all add: mk_bucket_def)
  have n1: "net_flow store_two_banks envelope_move 1 = - 100"
    by (simp add: net_flow_def envelope_move_def mk_entry_def a3 a4 signed_amount_def)
  have n2: "net_flow store_two_banks envelope_move 2 = 100"
    by (simp add: net_flow_def envelope_move_def mk_entry_def a3 a4 signed_amount_def)
  from GenerateTasks_iff_cross_anchor [OF h1] h2 obtain tasks where
    run: "GenerateTasks env0 store_two_banks envelope_move = Inr tasks"
    and iff: "tasks \<noteq> [] \<longleftrightarrow> (\<exists>a. 0 < net_flow store_two_banks envelope_move a)
                           \<and> (\<exists>a. net_flow store_two_banks envelope_move a < 0)"
    by blast
  have "0 < net_flow store_two_banks envelope_move 2" using n2 by simp
  moreover have "net_flow store_two_banks envelope_move 1 < 0" using n1 by simp
  ultimately have "tasks \<noteq> []" using iff by blast
  with h1 h2 n1 n2 run show ?thesis by blast
qed

section \<open>The wrong-card expense and the transfer-task generator\<close>

lemma physical_anchor_Create:
  assumes "TransactionRepo_Create store tx = (None, store')"
  shows "physical_anchor store' k = physical_anchor store k"
  by (simp add: physical_anchor_def TransactionRepo_Create_None(4) [OF assms] split: sum.splits)

text \<open>
  C5, as the code has it. After a successful \<^verbatim>\<open>LogExpense\<close> against the envelope
  FreeCash whose parent is the PHYSICAL bucket Checking, paid with the override CreditCard
  (another bucket): the posted transaction credits CreditCard in the PHYSICAL layer and
  FreeCash in the VIRTUAL layer and debits the category in both layers; the balance of
  Checking is as before; among the VIRTUAL-layer entries Checking nets minus the amount
  and no other anchor has a flow (the EXPENSE category has no anchor), so the generator,
  which pairs an anchor of negative flow with one of positive flow, returns no task.
\<close>

theorem LogExpense_override_no_task:
  assumes run: "LogExpense env store input = (Inr tx, store')"
    and ov: "le_PhysicalOverrideID input = Some creditCard"
    and vb: "BucketRepo_GetByID store (le_VirtualBucketID input) = Inr freeCash"
    and par: "b_ParentPhysicalBucketID freeCash = Some checking"
    and inv: "parents_physical store"
    and ne: "checking \<noteq> creditCard"
    and rng: "range_ok env"
  shows "map entry_view (t_Entries tx)
           = [(creditCard, le_Amount input, EntryTypeCredit, LayerPhysical),
              (le_CategoryBucketID input, le_Amount input, EntryTypeDebit, LayerPhysical),
              (le_VirtualBucketID input, le_Amount input, EntryTypeCredit, LayerVirtual),
              (le_CategoryBucketID input, le_Amount input, EntryTypeDebit, LayerVirtual)]
    \<and> balance_of store' checking = balance_of store checking
    \<and> net_flow store' tx checking = - le_Amount input
    \<and> (\<forall>a. a \<noteq> checking \<longrightarrow> net_flow store' tx a = 0)
    \<and> GenerateTasks env store' tx = Inr []"
proof -
  from LogExpense_InrD [OF run] vb obtain categoryBucket source where
    pos: "0 < le_Amount input"
    and vt: "b_BucketType freeCash = BucketTypeVirtual"
    and cb: "BucketRepo_GetByID store (le_CategoryBucketID input) = Inr categoryBucket"
    and ct: "b_BucketType categoryBucket = BucketTypeExpense"
    and src: "expense_source store freeCash (le_PhysicalOverrideID input) = Inr source"
    and tx: "tx = expense_transaction env input source"
    and cr: "TransactionRepo_Create store tx = (None, store')"
    by auto
  from LogExpense_source(2) [OF src vb disjI2 [OF inv]] ov have source: "source = creditCard" by simp
  from BucketRepo_GetByID_Inr [OF vb] have "freeCash \<in> set (buckets store)" by simp
  from parents_physicalD [OF inv this par] obtain checkingBucket where
    kb: "BucketRepo_GetByID store checking = Inr checkingBucket"
    and kt: "b_BucketType checkingBucket = BucketTypePhysical"
    by blast
  have d1: "checking \<noteq> le_VirtualBucketID input" using kb kt vb vt by auto
  have d2: "checking \<noteq> le_CategoryBucketID input" using kb kt cb ct by auto
  let ?e3 = "\<lparr>e_ID = env_uuid env 3, e_TransactionID = env_uuid env 0,
          e_BucketID = le_VirtualBucketID input,
          e_Amount = le_Amount input, e_Type = EntryTypeCredit, e_Layer = LayerVirtual\<rparr>"
  let ?e4 = "\<lparr>e_ID = env_uuid env 4, e_TransactionID = env_uuid env 0,
          e_BucketID = le_CategoryBucketID input,
          e_Amount = le_Amount input, e_Type = EntryTypeDebit, e_Layer = LayerVirtual\<rparr>"
  have entries: "t_Entries tx =
        [\<lparr>e_ID = env_uuid env 1, e_TransactionID = env_uuid env 0, e_BucketID = creditCard,
          e_Amount = le_Amount input, e_Type = EntryTypeCredit, e_Layer = LayerPhysical\<rparr>,
         \<lparr>e_ID = env_uuid env 2, e_TransactionID = env_uuid env 0,
          e_BucketID = le_CategoryBucketID input,
          e_Amount = le_Amount input, e_Type = EntryTypeDebit, e_Layer = LayerPhysical\<rparr>,
         ?e3, ?e4]"
    by (simp add: tx source expense_transaction_def Let_def)
  have view: "map entry_view (t_Entries tx)
           = [(creditCard, le_Amount input, EntryTypeCredit, LayerPhysical),
              (le_CategoryBucketID input, le_Amount input, EntryTypeDebit, LayerPhysical),
              (le_VirtualBucketID input, le_Amount input, EntryTypeCredit, LayerVirtual),
              (le_CategoryBucketID input, le_Amount input, EntryTypeDebit, LayerVirtual)]"
    by (simp add: entries entry_view_def)
  have "sum_list (map (entry_delta checking) (t_Entries tx)) = 0"
    using d1 d2 ne by (simp add: entries entry_delta_def)
  then have bal: "balance_of store' checking = balance_of store checking"
    by (simp add: balance_of_Create [OF cr] option.map_ident)
  have av: "physical_anchor store' (le_VirtualBucketID input) = Some checking"
    unfolding physical_anchor_Create [OF cr] by (simp add: physical_anchor_def vb vt par)
  have ac: "physical_anchor store' (le_CategoryBucketID input) = None"
    unfolding physical_anchor_Create [OF cr] by (simp add: physical_anchor_def cb ct)
  have nf: "net_flow store' tx a = (if a = checking then - le_Amount input else 0)" for a
    by (simp add: net_flow_def entries av ac signed_amount_def)
  have gv: "BucketRepo_GetByID store' (le_VirtualBucketID input)
            = Inr (freeCash\<lparr>b_CurrentBalance := b_CurrentBalance freeCash
                 + sum_list (map (entry_delta (le_VirtualBucketID input)) (t_Entries tx))\<rparr>)"
    by (simp add: TransactionRepo_Create_None(4) [OF cr] vb)
  have gc: "BucketRepo_GetByID store' (le_CategoryBucketID input)
            = Inr (categoryBucket\<lparr>b_CurrentBalance := b_CurrentBalance categoryBucket
                 + sum_list (map (entry_delta (le_CategoryBucketID input)) (t_Entries tx))\<rparr>)"
    by (simp add: TransactionRepo_Create_None(4) [OF cr] cb)
  have res: "resolvable store' tx"
    unfolding resolvable_def entries using par ct by (simp add: gv gc)
  from GenerateTasks_char [OF rng res] obtain tasks where
    gen: "GenerateTasks env store' tx = Inr tasks"
    and iff: "tasks \<noteq> [] \<longleftrightarrow> (\<exists>a. 0 < net_flow store' tx a) \<and> (\<exists>a. net_flow store' tx a < 0)"
    by blast
  have "\<not> (\<exists>a. 0 < net_flow store' tx a)" using pos by (simp add: nf)
  with iff have "tasks = []" by blast
  with gen view bal nf show ?thesis by simp
qed

text \<open>
  Scenario 4: Checking 500, CreditCard 500, FreeCash 500 (of Checking), Groceries 0, an
  expense of 75 paid with CreditCard.
\<close>

theorem LogExpense_override_no_task_witness:
  "le_PhysicalOverrideID expense_wrong_card = Some 2
   \<and> BucketRepo_GetByID store_wrong_card (le_VirtualBucketID expense_wrong_card)
       = Inr (mk_bucket 3 ''FreeCash'' BucketTypeVirtual (Some 1) 500)
   \<and> parents_physical store_wrong_card \<and> range_ok env0
   \<and> (\<exists>tx store'.
        LogExpense env0 store_wrong_card expense_wrong_card = (Inr tx, store')
      \<and> map entry_view (t_Entries tx)
           = [(2, 75, EntryTypeCredit, LayerPhysical), (4, 75, EntryTypeDebit, LayerPhysical),
              (3, 75, EntryTypeCredit, LayerVirtual), (4, 75, EntryTypeDebit, LayerVirtual)]
      \<and> balance_of store' 1 = Some 500
      \<and> net_flow store' tx 1 = - 75
      \<and> GenerateTasks env0 store' tx = Inr [])"
proof -
  have ov: "le_PhysicalOverrideID expense_wrong_card = Some 2"
    by (simp add: expense_wrong_card_def)
  have vb: "BucketRepo_GetByID store_wrong_card (le_VirtualBucketID expense_wrong_card)
       = Inr (mk_bucket 3 ''FreeCash'' BucketTypeVirtual (Some 1) 500)"
    by (simp add: expense_wrong_card_def BucketRepo_GetByID_def store_wrong_card_def mk_bucket_def)
  have par: "b_ParentPhysicalBucketID (mk_bucket 3 ''FreeCash'' BucketTypeVirtual (Some 1) 500)
             = Some 1"
    by (simp add: mk_bucket_def)
  have inv: "parents_physical store_wrong_card"
    by (simp add: parents_physical_def store_wrong_card_def mk_bucket_def BucketRepo_GetByID_def)
  have ne: "(1 :: uuid) \<noteq> 2" by simp
  have rng: "range_ok env0" by (simp add: range_ok_def env0_def)
  have b: "balance_of store_wrong_card 1 = Some 500"
    by (simp add: balance_of_def BucketRepo_GetByID_def store_wrong_card_def mk_bucket_def)
  have "\<not> isl (fst (LogExpense env0 store_wrong_card expense_wrong_card))" by code_simp
  then obtain tx store' where
    run: "LogExpense env0 store_wrong_card expense_wrong_card = (Inr tx, store')"
    by (cases "LogExpense env0 store_wrong_card expense_wrong_card";
        cases "fst (LogExpense env0 store_wrong_card expense_wrong_card)") auto
  from LogExpense_override_no_task [OF run ov vb par inv ne rng] b
  have res: "map entry_view (t_Entries tx)
           = [(2, 75, EntryTypeCredit, LayerPhysical), (4, 75, EntryTypeDebit, LayerPhysical),
              (3, 75, EntryTypeCredit, LayerVirtual), (4, 75, EntryTypeDebit, LayerVirtual)]
      \<and> balance_of store' 1 = Some 500
      \<and> net_flow store' tx 1 = - 75
      \<and> GenerateTasks env0 store' tx = Inr []"
    by (simp add: expense_wrong_card_def)
  have "\<exists>tx store'.
        LogExpense env0 store_wrong_card expense_wrong_card = (Inr tx, store')
      \<and> map entry_view (t_Entries tx)
           = [(2, 75, EntryTypeCredit, LayerPhysical), (4, 75, EntryTypeDebit, LayerPhysical),
              (3, 75, EntryTypeCredit, LayerVirtual), (4, 75, EntryTypeDebit, LayerVirtual)]
      \<and> balance_of store' 1 = Some 500
      \<and> net_flow store' tx 1 = - 75
      \<and> GenerateTasks env0 store' tx = Inr []"
    using run res by (intro exI [of _ tx] exI [of _ store']) (simp only: simp_thms)
  with ov vb inv rng show ?thesis by (simp only: simp_thms)
qed

text \<open>
  C5 as the specification states it (the generator emits a CreditCard to Checking task)
  does not hold: on the transaction posted in scenario 4 the generator returns the empty
  list.
\<close>

theorem wrong_card_no_task_counterexample:
  "\<not> isl (fst (LogExpense env0 store_wrong_card expense_wrong_card))
   \<and> GenerateTasks env0 (snd (LogExpense env0 store_wrong_card expense_wrong_card))
       (projr (fst (LogExpense env0 store_wrong_card expense_wrong_card))) = Inr []"
  by code_simp

section \<open>Properties of the inflow service\<close>

lemma separate_entries_amount:
  assumes "\<forall>e \<in> set es. (e_Layer e = LayerPhysical \<or> e_Layer e = LayerVirtual)
                      \<and> (e_Type e = EntryTypeDebit \<or> e_Type e = EntryTypeCredit)"
    and "\<exists>e \<in> set es. e_Amount e \<le> 0"
  shows "separate_entries es ph vi = Inl ErrEntryAmount"
  using assms by (induction es arbitrary: ph vi) auto

lemma inflow_transaction_rejected:
  assumes "(target, 0) \<in> set ranged"
  shows "validate_and_create store (inflow_transaction env input parent ranged)
         = (Inl ErrEntryAmount, store)"
proof -
  let ?tx = "inflow_transaction env input parent ranged"
  from assms obtain i where i: "i < length ranged" "ranged ! i = (target, 0)"
    by (auto simp: in_set_conv_nth)
  then have "(i, (target, 0)) \<in> set (enumerate 0 ranged)"
    by (simp add: in_set_enumerate_eq)
  then have "\<lparr>e_ID = env_uuid env (3 + i), e_TransactionID = env_uuid env 0,
              e_BucketID = target, e_Amount = 0,
              e_Type = EntryTypeDebit, e_Layer = LayerVirtual\<rparr> \<in> set (t_Entries ?tx)"
    by (force simp: inflow_transaction_def Let_def)
  then have z: "\<exists>e \<in> set (t_Entries ?tx). e_Amount e \<le> 0" by force
  have ok: "\<forall>e \<in> set (t_Entries ?tx).
              (e_Layer e = LayerPhysical \<or> e_Layer e = LayerVirtual)
            \<and> (e_Type e = EntryTypeDebit \<or> e_Type e = EntryTypeCredit)"
    by (auto simp: inflow_transaction_def Let_def)
  have ne: "t_Entries ?tx \<noteq> []" by (simp add: inflow_transaction_def Let_def)
  from separate_entries_amount [OF ok z, of "[]" "[]"] ne
  have "Transaction_Validate ?tx = Some ErrEntryAmount"
    by (simp add: Transaction_Validate_def)
  then show ?thesis by (simp add: validate_and_create_def)
qed

text \<open>
  C10. An external \<^verbatim>\<open>RecordInflow\<close> whose rule makes the allocator return a map that
  holds exactly zero for some target returns an error, and the store it leaves is the
  store it found: no transaction is persisted and no balance moves. When the source and
  target checks pass, the service has built a VIRTUAL-layer entry of amount zero and the
  error is that of \<^verbatim>\<open>Transaction.Validate\<close> for an amount that is not positive.
\<close>

theorem RecordInflow_zero_share_rejected:
  assumes rng: "range_ok env"
    and ext: "ri_IsExternal input"
    and rule: "SplitRuleRepo_GetBySourceBucketID env store (ri_SourceBucketID input)
               = Inr splitRule"
    and alloc: "CalculateAllocation (env_sort env) (ri_Amount input) (r_Items splitRule)
                = Inr allocation"
    and zero: "(target, 0) \<in> set allocation"
  shows "(\<exists>err. RecordInflow env store input = (Inl err, store))
    \<and> ((\<exists>sourceBucket firstItem rest firstTargetBucket parent.
           BucketRepo_GetByID store (ri_SourceBucketID input) = Inr sourceBucket
         \<and> b_BucketType sourceBucket = BucketTypeIncome
         \<and> r_Items splitRule = firstItem # rest
         \<and> BucketRepo_GetByID store (i_TargetBucketID firstItem) = Inr firstTargetBucket
         \<and> b_BucketType firstTargetBucket = BucketTypeVirtual
         \<and> b_ParentPhysicalBucketID firstTargetBucket = Some parent
         \<and> check_targets store parent (env_range env 0 allocation) = None)
        \<longrightarrow> RecordInflow env store input = (Inl ErrEntryAmount, store))"
proof -
  have "mset (env_range env (Suc 0) allocation) = mset allocation"
    using rng by (simp add: range_ok_def)
  then have "set (env_range env (Suc 0) allocation) = set allocation" by (rule mset_eq_setD)
  with zero have z: "(target, 0) \<in> set (env_range env (Suc 0) allocation)" by simp
  note rej = inflow_transaction_rejected [OF z]
  have pos: "0 < ri_Amount input"
    using alloc by (rule CalculateAllocation_InrE)
  have 1: "\<exists>err. RecordInflow env store input = (Inl err, store)"
    using pos ext
    by (auto simp: RecordInflow_def recordExternalInflow_def rule alloc rej
             split: sum.splits list.splits option.splits)
  have 2: "RecordInflow env store input = (Inl ErrEntryAmount, store)"
    if "\<exists>sourceBucket firstItem rest firstTargetBucket parent.
           BucketRepo_GetByID store (ri_SourceBucketID input) = Inr sourceBucket
         \<and> b_BucketType sourceBucket = BucketTypeIncome
         \<and> r_Items splitRule = firstItem # rest
         \<and> BucketRepo_GetByID store (i_TargetBucketID firstItem) = Inr firstTargetBucket
         \<and> b_BucketType firstTargetBucket = BucketTypeVirtual
         \<and> b_ParentPhysicalBucketID firstTargetBucket = Some parent
         \<and> check_targets store parent (env_range env 0 allocation) = None"
  proof -
    from that obtain sourceBucket firstItem rest firstTargetBucket parent where
      sb: "BucketRepo_GetByID store (ri_SourceBucketID input) = Inr sourceBucket"
      and sty: "b_BucketType sourceBucket = BucketTypeIncome"
      and items: "r_Items splitRule = firstItem # rest"
      and fb: "BucketRepo_GetByID store (i_TargetBucketID firstItem) = Inr firstTargetBucket"
      and fty: "b_BucketType firstTargetBucket = BucketTypeVirtual"
      and fpar: "b_ParentPhysicalBucketID firstTargetBucket = Some parent"
      and chk: "check_targets store parent (env_range env 0 allocation) = None"
      by blast
    note alloc' = alloc [unfolded items]
    have "recordExternalInflow env store input sourceBucket = (Inl ErrEntryAmount, store)"
      by (simp add: recordExternalInflow_def rule alloc' items fb fty fpar chk rej)
    then show ?thesis
      using pos ext by (simp add: RecordInflow_def sb sty)
  qed
  from 1 2 show ?thesis by blast
qed

text \<open>
  An inflow of 1000 under FIXED 50, PERCENT 0, REMAINDER: the allocation is 50, 0 and 950
  and the inflow is rejected for the entry of amount 0.
\<close>

theorem RecordInflow_zero_share_rejected_witness:
  "range_ok env0 \<and> ri_IsExternal inflow_1000
   \<and> (\<exists>splitRule.
        SplitRuleRepo_GetBySourceBucketID env0 store_inflow (ri_SourceBucketID inflow_1000)
          = Inr splitRule
      \<and> CalculateAllocation (env_sort env0) (ri_Amount inflow_1000) (r_Items splitRule)
          = Inr [(2, 50), (3, 0), (4, 950)])
   \<and> (3, 0) \<in> set [(2 :: uuid, 50 :: decimal), (3, 0), (4, 950)]
   \<and> RecordInflow env0 store_inflow inflow_1000 = (Inl ErrEntryAmount, store_inflow)"
proof -
  have rng: "range_ok env0" by (simp add: range_ok_def env0_def)
  have ext: "ri_IsExternal inflow_1000" by (simp add: inflow_1000_def)
  have "\<not> isl (SplitRuleRepo_GetBySourceBucketID env0 store_inflow (ri_SourceBucketID inflow_1000))"
    by code_simp
  then obtain splitRule where
    rule: "SplitRuleRepo_GetBySourceBucketID env0 store_inflow (ri_SourceBucketID inflow_1000)
           = Inr splitRule"
    by (cases "SplitRuleRepo_GetBySourceBucketID env0 store_inflow (ri_SourceBucketID inflow_1000)")
       auto
  have "CalculateAllocation (env_sort env0) (ri_Amount inflow_1000)
          (r_Items (projr (SplitRuleRepo_GetBySourceBucketID env0 store_inflow
                             (ri_SourceBucketID inflow_1000))))
        = Inr [(2, 50), (3, 0), (4, 950)]"
    by code_simp
  then have alloc: "CalculateAllocation (env_sort env0) (ri_Amount inflow_1000) (r_Items splitRule)
                    = Inr [(2, 50), (3, 0), (4, 950)]"
    by (simp add: rule)
  have zero: "(3, 0) \<in> set [(2 :: uuid, 50 :: decimal), (3, 0), (4, 950)]" by simp
  have run: "RecordInflow env0 store_inflow inflow_1000 = (Inl ErrEntryAmount, store_inflow)"
    by code_simp
  from RecordInflow_zero_share_rejected [OF rng ext rule alloc zero] run
  have "\<exists>err. RecordInflow env0 store_inflow inflow_1000 = (Inl err, store_inflow)" by blast
  with rng ext rule alloc zero run show ?thesis by blast
qed

end
